theory Spec2Isabelle
  imports Complex_Main
begin

section \<open>Tensors\<close>

text \<open>
  The program works on dense tensors of torch and numpy. A spatial field \<open>[x][y][z]\<close> is a
  three-level list, and a five-dimensional tensor \<open>[feature_out][feature_in][x][y][z]\<close> is a
  two-level list of fields. Entries are real numbers: rounding of the 32-bit and 64-bit floats
  is not part of the model.
\<close>

type_synonym vol = "real list list list"

type_synonym tensor5 = "vol list list"

datatype error = AssertionError | IndexError | UnboundLocalError | RuntimeError

text \<open>Elementwise application of a scalar function, as in \<^verbatim>\<open>T * w\<close> and \<^verbatim>\<open>T /= c\<close>.\<close>

definition map5 :: "(real \<Rightarrow> real) \<Rightarrow> tensor5 \<Rightarrow> tensor5" where
  "map5 f T = map (map (map (map (map f)))) T"

text \<open>\<^verbatim>\<open>T.view(-1)\<close>: the entries in row-major order.\<close>

definition view1 :: "tensor5 \<Rightarrow> real list" where
  "view1 T = concat (concat (concat (concat T)))"

text \<open>\<^verbatim>\<open>np.linalg.norm(T)\<close> with no axis and no order: the 2-norm of the flattened array.\<close>

definition linalg_norm :: "tensor5 \<Rightarrow> real" where
  "linalg_norm T = sqrt (sum_list (map (\<lambda>x. x * x) (view1 T)))"

text \<open>The shape \<open>(a, b, s, s, s)\<close> of a tensor.\<close>

definition vol_shape :: "nat \<Rightarrow> vol \<Rightarrow> bool" where
  "vol_shape s v \<longleftrightarrow>
     length v = s \<and> (\<forall>p \<in> set v. length p = s \<and> (\<forall>l \<in> set p. length l = s))"

definition shape5 :: "nat \<Rightarrow> nat \<Rightarrow> nat \<Rightarrow> tensor5 \<Rightarrow> bool" where
  "shape5 a b s T \<longleftrightarrow>
     length T = a \<and> (\<forall>row \<in> set T. length row = b \<and> (\<forall>v \<in> set row. vol_shape s v))"

section \<open>Representations\<close>

text \<open>
  Modelled from the spec: \<^verbatim>\<open>SO3.dim\<close>, of the module \<^verbatim>\<open>se3_cnn.SO3\<close>, is not among the
  sources. A representation is identified by its order \<open>n\<close> and has dimension \<open>2 n + 1\<close>.
\<close>

type_synonym repr = nat

definition SO3_dim :: "repr \<Rightarrow> nat" where
  "SO3_dim R = 2 * R + 1"

section \<open>The basis of one pair of representations\<close>

text \<open>
  \<^verbatim>\<open>center[k, :, :, size//2, size//2, size//2] = K\<close> on an array of zeros: the element
  holds the matrix \<open>K\<close> at the centre voxel and zero at every other voxel. The shape of the
  array is that of the sampled basis, \<open>(dim R_out, dim R_in, size, size, size)\<close>.
\<close>

definition center_vol :: "nat \<Rightarrow> real \<Rightarrow> vol" where
  "center_vol size' v =
     map (\<lambda>x. map (\<lambda>y. map (\<lambda>z.
       if x = size' div 2 \<and> y = size' div 2 \<and> z = size' div 2 then v else 0)
       [0..<size']) [0..<size']) [0..<size']"


definition center_element :: "nat \<Rightarrow> nat \<Rightarrow> nat \<Rightarrow> real list list \<Rightarrow> tensor5" where
  "center_element size' d_out d_in K =
     map (\<lambda>a. map (\<lambda>b. center_vol size' (K ! a ! b)) [0..<d_in]) [0..<d_out]"

text \<open>
  The three in-place updates of \<^verbatim>\<open>basis[k]\<close> in the normalisation loop; \<^verbatim>\<open>len(basis)\<close> is
  read from the array being updated.
\<close>

definition normalize_element :: "nat \<Rightarrow> nat \<Rightarrow> tensor5 list \<Rightarrow> nat \<Rightarrow> tensor5 list" where
  "normalize_element d_out m_in basis k =
     (let basis1 = basis[k := map5 (\<lambda>x. x / linalg_norm (basis ! k)) (basis ! k)];
          basis2 = basis1[k := map5 (\<lambda>x. x * sqrt (real d_out / real (length basis1)))
                                 (basis1 ! k)]
      in basis2[k := map5 (\<lambda>x. x / sqrt (real m_in)) (basis2 ! k)])"

text \<open>
  \<^verbatim>\<open>generate_basis\<close>. The two generators of \<^verbatim>\<open>se3_cnn.basis_kernels\<close> are not among the
  sources and are parameters: \<open>cube\<close> is \<^verbatim>\<open>cube_basis_kernels_subsampled_cosine\<close> and \<open>so3\<close> is
  \<^verbatim>\<open>basis_kernels_satisfying_SO3_constraint\<close>.
\<close>

definition generate_basis ::
  "nat \<Rightarrow> nat \<Rightarrow> bool \<Rightarrow> (nat \<Rightarrow> repr \<Rightarrow> repr \<Rightarrow> nat \<Rightarrow> tensor5 list) \<Rightarrow>
   (repr \<Rightarrow> repr \<Rightarrow> real list list list) \<Rightarrow> repr \<Rightarrow> repr \<Rightarrow> nat \<Rightarrow> nat \<Rightarrow> tensor5 list" where
  "generate_basis size' M central_base cube so3 R_out R_in m_out m_in =
     (let basis = cube size' R_out R_in M;
          basis = (if central_base \<and> size' mod 2 = 1
                   then map (center_element size' (SO3_dim R_out) (SO3_dim R_in)) (so3 R_out R_in)
                        @ basis
                   else basis)
      in foldl (normalize_element (SO3_dim R_out) m_in) basis [0..<length basis])"

section \<open>The kernel combination\<close>

record combination =
  csize :: nat
  multiplicites_out :: "nat list"
  multiplicites_in :: "nat list"
  dims_out :: "nat list"
  dims_in :: "nat list"
  kernels :: "tensor5 list list list"
  nweights :: nat

text \<open>
  The constructor builds the four lists and the table of bases together, from the two filtered
  lists: they have matching lengths, which is what the index reads \<open>!\<close> of the loops below
  rely on.
\<close>

text \<open>The loop that counts the weights, over the filtered lists.\<close>

definition count_weights :: "nat list \<Rightarrow> nat list \<Rightarrow> tensor5 list list list \<Rightarrow> nat" where
  "count_weights ms_out ms_in ks =
     foldl (\<lambda>n i. foldl (\<lambda>n j. n + ms_out ! i * ms_in ! j * length (ks ! i ! j))
                    n [0..<length ms_in])
           0 [0..<length ms_out]"

definition SE3KernelCombination_init ::
  "nat \<Rightarrow> (nat \<times> repr) list \<Rightarrow> (nat \<times> repr) list \<Rightarrow> nat \<Rightarrow> bool \<Rightarrow>
   (nat \<Rightarrow> repr \<Rightarrow> repr \<Rightarrow> nat \<Rightarrow> tensor5 list) \<Rightarrow> (repr \<Rightarrow> repr \<Rightarrow> real list list list) \<Rightarrow>
   combination" where
  "SE3KernelCombination_init size' Rs_out Rs_in M central_base cube so3 =
     (let Rs_out = filter (\<lambda>(m, R). m \<ge> 1) Rs_out;
          Rs_in = filter (\<lambda>(m, R). m \<ge> 1) Rs_in;
          ks = map (\<lambda>(m_out, R_out). map (\<lambda>(m_in, R_in).
                 generate_basis size' M central_base cube so3 R_out R_in m_out m_in) Rs_in) Rs_out
      in \<lparr> csize = size',
           multiplicites_out = map fst Rs_out,
           multiplicites_in = map fst Rs_in,
           dims_out = map (\<lambda>(m, R). SO3_dim R) Rs_out,
           dims_in = map (\<lambda>(m, R). SO3_dim R) Rs_in,
           kernels = ks,
           nweights = count_weights (map fst Rs_out) (map fst Rs_in) ks \<rparr>)"

text \<open>
  \<^verbatim>\<open>torch.FloatTensor(n_out, n_in, size, size, size)\<close> allocates without initialising: the
  tensor holds whatever the memory held, which is the parameter \<open>mem\<close>.
\<close>

definition alloc5 ::
  "(nat \<Rightarrow> nat \<Rightarrow> nat \<Rightarrow> nat \<Rightarrow> nat \<Rightarrow> real) \<Rightarrow> nat \<Rightarrow> nat \<Rightarrow> nat \<Rightarrow> tensor5" where
  "alloc5 mem a b s =
     map (\<lambda>r. map (\<lambda>c. map (\<lambda>x. map (\<lambda>y. map (\<lambda>z. mem r c x y z)
       [0..<s]) [0..<s]) [0..<s]) [0..<b]) [0..<a]"

text \<open>\<^verbatim>\<open>kernel[si, sj] = T\<close> for the slices \<open>si = (i0, i1)\<close> and \<open>sj = (j0, j1)\<close>.\<close>

definition assign_block :: "tensor5 \<Rightarrow> nat \<times> nat \<Rightarrow> nat \<times> nat \<Rightarrow> tensor5 \<Rightarrow> tensor5" where
  "assign_block kernel' si sj T =
     take (fst si) kernel'
     @ map2 (\<lambda>row trow. take (fst sj) row @ trow @ drop (snd sj) row)
            (take (snd si - fst si) (drop (fst si) kernel')) T
     @ drop (snd si) kernel'"

text \<open>\<^verbatim>\<open>sum([ms[i] * ds[i] for i in range(len(ms))])\<close>.\<close>

definition n_features :: "nat list \<Rightarrow> nat list \<Rightarrow> nat" where
  "n_features ms ds = sum_list (map (\<lambda>i. ms ! i * ds ! i) [0..<length ms])"

text \<open>
  The five nested loops of \<^verbatim>\<open>forward\<close>, innermost first. The state of the three inner
  loops is the kernel and \<^verbatim>\<open>weight_index\<close>, or the error raised so far; the two outer loops
  also carry the slice origin. \<^verbatim>\<open>weight[weight_index]\<close> raises past the end of the weight.
  The assignment to the slice raises when the element has not the shape of the slice
  (broadcasting of a smaller element is not modelled).
\<close>

definition forward_k ::
  "combination \<Rightarrow> real list \<Rightarrow> nat \<Rightarrow> nat \<Rightarrow> nat \<times> nat \<Rightarrow> nat \<times> nat \<Rightarrow>
   error + tensor5 \<times> nat \<Rightarrow> error + tensor5 \<times> nat" where
  "forward_k C weight i j si sj st =
     foldl (\<lambda>st k.
              case st of Inl e \<Rightarrow> Inl e
              | Inr (kernel', weight_index) \<Rightarrow>
                  if weight_index < length weight then
                    let T = map5 (\<lambda>x. x * weight ! weight_index) (kernels C ! i ! j ! k)
                    in if shape5 (snd si - fst si) (snd sj - fst sj) (csize C) T
                       then Inr (assign_block kernel' si sj T, weight_index + 1)
                       else Inl RuntimeError
                  else Inl IndexError)
           st [0..<length (kernels C ! i ! j)]"

definition forward_jj ::
  "combination \<Rightarrow> real list \<Rightarrow> nat \<Rightarrow> nat \<Rightarrow> nat \<Rightarrow> nat \<times> nat \<Rightarrow>
   error + tensor5 \<times> nat \<Rightarrow> error + tensor5 \<times> nat" where
  "forward_jj C weight i j begin_j si st =
     foldl (\<lambda>st jj. forward_k C weight i j si
                       (begin_j + jj * dims_in C ! j, begin_j + (jj + 1) * dims_in C ! j) st)
           st [0..<multiplicites_in C ! j]"

definition forward_ii ::
  "combination \<Rightarrow> real list \<Rightarrow> nat \<Rightarrow> nat \<Rightarrow> nat \<Rightarrow> nat \<Rightarrow>
   error + tensor5 \<times> nat \<Rightarrow> error + tensor5 \<times> nat" where
  "forward_ii C weight i j begin_i begin_j st =
     foldl (\<lambda>st ii. forward_jj C weight i j begin_j
                       (begin_i + ii * dims_out C ! i, begin_i + (ii + 1) * dims_out C ! i) st)
           st [0..<multiplicites_out C ! i]"

definition forward_j ::
  "combination \<Rightarrow> real list \<Rightarrow> nat \<Rightarrow> nat \<Rightarrow>
   error + tensor5 \<times> nat \<Rightarrow> error + tensor5 \<times> nat" where
  "forward_j C weight i begin_i st =
     fst (foldl (\<lambda>(st, begin_j) j.
                   (forward_ii C weight i j begin_i begin_j st,
                    begin_j + multiplicites_in C ! j * dims_in C ! j))
                (st, 0) [0..<length (multiplicites_in C)])"

definition forward_i ::
  "combination \<Rightarrow> real list \<Rightarrow> error + tensor5 \<times> nat \<Rightarrow> error + tensor5 \<times> nat" where
  "forward_i C weight st =
     fst (foldl (\<lambda>(st, begin_i) i.
                   (forward_j C weight i begin_i st,
                    begin_i + multiplicites_out C ! i * dims_out C ! i))
                (st, 0) [0..<length (multiplicites_out C)])"

text \<open>\<^verbatim>\<open>SE3KernelCombination.forward\<close>. The weight is a list, so it has one dimension.\<close>

definition forward ::
  "(nat \<Rightarrow> nat \<Rightarrow> nat \<Rightarrow> nat \<Rightarrow> nat \<Rightarrow> real) \<Rightarrow> combination \<Rightarrow> real list \<Rightarrow> error + tensor5" where
  "forward mem C weight =
     (if length weight \<noteq> nweights C then Inl AssertionError
      else let n_out = n_features (multiplicites_out C) (dims_out C);
               n_in = n_features (multiplicites_in C) (dims_in C);
               kernel' = alloc5 mem n_out n_in (csize C)
           in case forward_i C weight (Inr (kernel', 0)) of
                Inl e \<Rightarrow> Inl e
              | Inr (kernel', weight_index) \<Rightarrow> Inr kernel')"

text \<open>\<^verbatim>\<open>torch.FloatTensor(nweights)\<close>, again uninitialised.\<close>

definition alloc1 :: "(nat \<Rightarrow> real) \<Rightarrow> nat \<Rightarrow> real list" where
  "alloc1 gmem n = map gmem [0..<n]"

text \<open>\<^verbatim>\<open>grad_kernel[si, sj]\<close>: slices clamp to the extent of the tensor.\<close>

definition slice_block :: "tensor5 \<Rightarrow> nat \<times> nat \<Rightarrow> nat \<times> nat \<Rightarrow> tensor5" where
  "slice_block T si sj =
     map (\<lambda>row. take (snd sj - fst sj) (drop (fst sj) row))
         (take (snd si - fst si) (drop (fst si) T))"

text \<open>\<^verbatim>\<open>torch.matmul\<close> of two vectors: their dot product, an error when the sizes differ.\<close>

definition matmul :: "real list \<Rightarrow> real list \<Rightarrow> error + real" where
  "matmul a b =
     (if length a \<noteq> length b then Inl RuntimeError
      else Inr (sum_list (map2 (\<lambda>x y. x * y) a b)))"

text \<open>The loops of \<^verbatim>\<open>backward\<close>, which mirror those of \<^verbatim>\<open>forward\<close>. The state is the
  gradient vector and \<^verbatim>\<open>weight_index\<close>, or the error raised so far.\<close>

definition backward_k ::
  "combination \<Rightarrow> tensor5 \<Rightarrow> nat \<Rightarrow> nat \<Rightarrow> nat \<times> nat \<Rightarrow> nat \<times> nat \<Rightarrow>
   error + real list \<times> nat \<Rightarrow> error + real list \<times> nat" where
  "backward_k C grad_kernel i j si sj st =
     foldl (\<lambda>st k.
              case st of Inl e \<Rightarrow> Inl e
              | Inr (grad_weight, weight_index) \<Rightarrow>
                  (case matmul (view1 (kernels C ! i ! j ! k))
                               (view1 (slice_block grad_kernel si sj)) of
                     Inl e \<Rightarrow> Inl e
                   | Inr v \<Rightarrow>
                       if weight_index < length grad_weight
                       then Inr (grad_weight[weight_index := v], weight_index + 1)
                       else Inl IndexError))
           st [0..<length (kernels C ! i ! j)]"

definition backward_jj ::
  "combination \<Rightarrow> tensor5 \<Rightarrow> nat \<Rightarrow> nat \<Rightarrow> nat \<Rightarrow> nat \<times> nat \<Rightarrow>
   error + real list \<times> nat \<Rightarrow> error + real list \<times> nat" where
  "backward_jj C grad_kernel i j begin_j si st =
     foldl (\<lambda>st jj. backward_k C grad_kernel i j si
                       (begin_j + jj * dims_in C ! j, begin_j + (jj + 1) * dims_in C ! j) st)
           st [0..<multiplicites_in C ! j]"

definition backward_ii ::
  "combination \<Rightarrow> tensor5 \<Rightarrow> nat \<Rightarrow> nat \<Rightarrow> nat \<Rightarrow> nat \<Rightarrow>
   error + real list \<times> nat \<Rightarrow> error + real list \<times> nat" where
  "backward_ii C grad_kernel i j begin_i begin_j st =
     foldl (\<lambda>st ii. backward_jj C grad_kernel i j begin_j
                       (begin_i + ii * dims_out C ! i, begin_i + (ii + 1) * dims_out C ! i) st)
           st [0..<multiplicites_out C ! i]"

definition backward_j ::
  "combination \<Rightarrow> tensor5 \<Rightarrow> nat \<Rightarrow> nat \<Rightarrow>
   error + real list \<times> nat \<Rightarrow> error + real list \<times> nat" where
  "backward_j C grad_kernel i begin_i st =
     fst (foldl (\<lambda>(st, begin_j) j.
                   (backward_ii C grad_kernel i j begin_i begin_j st,
                    begin_j + multiplicites_in C ! j * dims_in C ! j))
                (st, 0) [0..<length (multiplicites_in C)])"

definition backward_i ::
  "combination \<Rightarrow> tensor5 \<Rightarrow> error + real list \<times> nat \<Rightarrow> error + real list \<times> nat" where
  "backward_i C grad_kernel st =
     fst (foldl (\<lambda>(st, begin_i) i.
                   (backward_j C grad_kernel i begin_i st,
                    begin_i + multiplicites_out C ! i * dims_out C ! i))
                (st, 0) [0..<length (multiplicites_out C)])"

text \<open>\<^verbatim>\<open>SE3KernelCombination.backward\<close>.\<close>

definition backward :: "(nat \<Rightarrow> real) \<Rightarrow> combination \<Rightarrow> tensor5 \<Rightarrow> error + real list" where
  "backward gmem C grad_kernel =
     (case backward_i C grad_kernel (Inr (alloc1 gmem (nweights C), 0)) of
        Inl e \<Rightarrow> Inl e
      | Inr (grad_weight, weight_index) \<Rightarrow> Inr grad_weight)"

text \<open>The dot product of two vectors of equal length, for the adjoint test of the spec.\<close>

definition dot :: "real list \<Rightarrow> real list \<Rightarrow> real" where
  "dot a b = sum_list (map2 (\<lambda>x y. x * y) a b)"

section \<open>The gated activation\<close>

text \<open>
  A feature tensor \<open>[batch, channel, x, y, z]\<close> is handled here only along its channel axis,
  so it is the list of its channels; a channel, of type \<open>'c\<close>, holds the values over the
  batch and the three spatial axes. \<open>cmul\<close> is the elementwise product of two channels.

  The collaborators of \<^verbatim>\<open>GatedActivation\<close> are not among the sources and are parameters.

  Modelled from the spec: \<^verbatim>\<open>ScalarActivation\<close> takes a list of groups (channel count,
  activation function) and is applied elementwise per group: \<open>SA groups c\<close> is what it does to
  channel \<open>c\<close> of its input.

  Modelled from the spec: a convolution layer is declared on the representation lists
  \<^verbatim>\<open>Rs_in\<close> and \<^verbatim>\<open>Rs_out\<close>. An input whose channel count is not the one that \<^verbatim>\<open>Rs_in\<close>
  declares, the sum of multiplicity times dimension, is a precondition violation and the
  layer fails. Otherwise it returns a tensor with the channels that \<^verbatim>\<open>Rs_out\<close> declares and,
  with the padding \<^verbatim>\<open>size // 2\<close> of an odd size, the batch and spatial extents of the input:
  \<open>Conv kind Rs_in Rs_out size x o\<close> is channel \<open>o\<close> of the output.
\<close>

datatype conv_kind =
  SE3Convolution | SE3BNConvolution real | SE3GNConvolution
  | SE3GNConvolution_Rs_gn "(nat \<times> nat) list"

datatype 'f activation = Tuple "'f option" "'f option" | Single "'f option"

text \<open>The two activation functions: a tuple is unpacked, anything else serves as both.\<close>

definition unpack_activation :: "'f activation \<Rightarrow> 'f option \<times> 'f option" where
  "unpack_activation activation =
     (case activation of Tuple a b \<Rightarrow> (a, b) | Single a \<Rightarrow> (a, a))"

definition apply_ScalarActivation ::
  "((nat \<times> 'f) list \<Rightarrow> nat \<Rightarrow> 'c \<Rightarrow> 'c) \<Rightarrow> (nat \<times> 'f) list \<Rightarrow> 'c list \<Rightarrow> 'c list" where
  "apply_ScalarActivation SA groups x = map (\<lambda>c. SA groups c (x ! c)) [0..<length x]"

definition apply_Convolution ::
  "(conv_kind \<Rightarrow> (nat \<times> repr) list \<Rightarrow> (nat \<times> repr) list \<Rightarrow> int \<Rightarrow> 'c list \<Rightarrow> nat \<Rightarrow> 'c) \<Rightarrow>
   conv_kind \<Rightarrow> (nat \<times> repr) list \<Rightarrow> (nat \<times> repr) list \<Rightarrow> int \<Rightarrow> 'c list \<Rightarrow>
   error + 'c list" where
  "apply_Convolution Conv kind Rs_in Rs_out size' x =
     (if length x \<noteq> sum_list (map (\<lambda>(m, R). m * SO3_dim R) Rs_in) then Inl RuntimeError
      else Inr (map (Conv kind Rs_in Rs_out size' x)
                    [0..<sum_list (map (\<lambda>(m, R). m * SO3_dim R) Rs_out)]))"

text \<open>
  The module: \<^verbatim>\<open>self.gates\<close> is the convolution followed by the scalar activation of the
  gates, and fails where the convolution fails.
\<close>

record 'c gated_activation =
  repr_in :: "nat list"
  scalar_act :: "('c list \<Rightarrow> 'c list) option"
  gates :: "('c list \<Rightarrow> error + 'c list) option"

text \<open>
  The chain of \<^verbatim>\<open>if\<close> statements that picks the convolution class. Each comparison is taken
  as an equality of strings. With any other string no branch assigns \<^verbatim>\<open>Convolution\<close>.
\<close>

definition choose_Convolution :: "string option \<Rightarrow> real \<Rightarrow> nat list \<Rightarrow> conv_kind option" where
  "choose_Convolution normalization batch_norm_momentum repr_in' =
     (let Convolution = None;
          Convolution = (if normalization = None then Some SE3Convolution else Convolution);
          Convolution = (if normalization = Some ''batch''
                         then Some (SE3BNConvolution batch_norm_momentum) else Convolution);
          Convolution = (if normalization = Some ''group''
                         then Some SE3GNConvolution else Convolution);
          Convolution = (if normalization = Some ''instance''
                         then Some (SE3GNConvolution_Rs_gn
                                (concat (map (\<lambda>n. replicate (repr_in' ! n) (1, 2 * n + 1))
                                             [0..<length repr_in'])))
                         else Convolution)
      in Convolution)"

text \<open>
  \<^verbatim>\<open>GatedActivation.__init__\<close>. \<^verbatim>\<open>repr_in[0]\<close> is read only when a scalar activation is
  given, and raises on an empty tuple. \<^verbatim>\<open>irreducible_repr\<close> holds the eight representations
  of orders 0 to 7. \<^verbatim>\<open>radial_window_dict\<close> is handed to the convolution unread and is left
  out.
\<close>

definition GatedActivation_init ::
  "((nat \<times> 'f) list \<Rightarrow> nat \<Rightarrow> 'c \<Rightarrow> 'c) \<Rightarrow>
   (conv_kind \<Rightarrow> (nat \<times> repr) list \<Rightarrow> (nat \<times> repr) list \<Rightarrow> int \<Rightarrow> 'c list \<Rightarrow> nat \<Rightarrow> 'c) \<Rightarrow>
   nat list \<Rightarrow> int \<Rightarrow> 'f activation \<Rightarrow> string option \<Rightarrow> real \<Rightarrow>
   error + 'c gated_activation" where
  "GatedActivation_init SA Conv repr_in' size' activation normalization batch_norm_momentum =
     (let (scalar_activation, gate_activation) = unpack_activation activation;
          irreducible_repr = [0..<8];
          n_non_scalar = sum_list (drop 1 repr_in')
      in case (case scalar_activation of
                 None \<Rightarrow> Inr None
               | Some f \<Rightarrow>
                   if repr_in' = [] then Inl IndexError
                   else if repr_in' ! 0 > 0
                        then Inr (Some (apply_ScalarActivation SA [(repr_in' ! 0, f)]))
                        else Inr None) of
           Inl e \<Rightarrow> Inl e
         | Inr scalar_act' \<Rightarrow>
             (case gate_activation of
                Some g \<Rightarrow>
                  if n_non_scalar > 0 then
                    if size' mod 2 \<noteq> 1 then Inl AssertionError
                    else (case choose_Convolution normalization batch_norm_momentum repr_in' of
                            None \<Rightarrow> Inl UnboundLocalError
                          | Some kind \<Rightarrow>
                              Inr \<lparr> repr_in = repr_in', scalar_act = scalar_act',
                                    gates = Some (\<lambda>x.
                                      case apply_Convolution Conv kind
                                             (zip repr_in' irreducible_repr)
                                             [(n_non_scalar, 0)] size' x of
                                        Inl e \<Rightarrow> Inl e
                                      | Inr y \<Rightarrow>
                                          Inr (apply_ScalarActivation SA
                                                 [(n_non_scalar, g)] y)) \<rparr>)
                  else Inr \<lparr> repr_in = repr_in', scalar_act = scalar_act', gates = None \<rparr>
              | None \<Rightarrow> Inr \<lparr> repr_in = repr_in', scalar_act = scalar_act', gates = None \<rparr>))"

text \<open>
  One pass of the loop of \<^verbatim>\<open>forward\<close> over \<^verbatim>\<open>enumerate(self.repr_in)\<close>. The state is
  \<^verbatim>\<open>begin_x\<close>, \<^verbatim>\<open>begin_g\<close> and \<^verbatim>\<open>zs\<close>. A \<^verbatim>\<open>view\<close> fails when the number of channels is not
  the one asked for. In the product the gate of capsule \<open>c div dim\<close> is broadcast over the
  \<open>dim\<close> channels of the capsule.
\<close>

definition forward_block ::
  "('c \<Rightarrow> 'c \<Rightarrow> 'c) \<Rightarrow> 'c gated_activation \<Rightarrow> 'c list \<Rightarrow> 'c list option \<Rightarrow>
   nat \<times> nat \<times> 'c list list \<Rightarrow> nat \<Rightarrow> error + nat \<times> nat \<times> 'c list list" where
  "forward_block cmul G x g st n =
     (case st of (begin_x, begin_g, zs) \<Rightarrow>
        let mul = repr_in G ! n in
        if mul = 0 then Inr (begin_x, begin_g, zs)
        else
          let dim = 2 * n + 1;
              field_x = take (mul * dim) (drop begin_x x);
              begin_x = begin_x + mul * dim
          in if n = 0 then
               (case scalar_act G of
                  Some act \<Rightarrow> Inr (begin_x, begin_g, zs @ [act field_x])
                | None \<Rightarrow> Inr (begin_x, begin_g, zs @ [field_x]))
             else
               (case g of
                  Some g' \<Rightarrow>
                    if length field_x \<noteq> mul * dim then Inl RuntimeError
                    else
                      let field_g = take mul (drop begin_g g');
                          begin_g = begin_g + mul
                      in if length field_g \<noteq> mul then Inl RuntimeError
                         else Inr (begin_x, begin_g,
                                   zs @ [map (\<lambda>c. cmul (field_x ! c) (field_g ! (c div dim)))
                                             [0..<mul * dim]])
                | None \<Rightarrow> Inr (begin_x, begin_g, zs @ [field_x])))"

definition forward_blocks ::
  "('c \<Rightarrow> 'c \<Rightarrow> 'c) \<Rightarrow> 'c gated_activation \<Rightarrow> 'c list \<Rightarrow> 'c list option \<Rightarrow>
   nat list \<Rightarrow> error + nat \<times> nat \<times> 'c list list" where
  "forward_blocks cmul G x g ns =
     foldl (\<lambda>st n. case st of Inl e \<Rightarrow> Inl e | Inr s \<Rightarrow> forward_block cmul G x g s n)
           (Inr (0, 0, [])) ns"

text \<open>
  \<^verbatim>\<open>g = self.gates(x)\<close>, when there are gates: the gate tensor, or the failure of the gate
  convolution.
\<close>

definition run_gates :: "'c gated_activation \<Rightarrow> 'c list \<Rightarrow> error + 'c list option" where
  "run_gates G x =
     (case gates G of
        None \<Rightarrow> Inr None
      | Some gates' \<Rightarrow> (case gates' x of Inl e \<Rightarrow> Inl e | Inr g \<Rightarrow> Inr (Some g)))"

text \<open>\<^verbatim>\<open>GatedActivation.forward\<close>. \<^verbatim>\<open>torch.cat\<close> of an empty list raises.\<close>

definition GatedActivation_forward ::
  "('c \<Rightarrow> 'c \<Rightarrow> 'c) \<Rightarrow> 'c gated_activation \<Rightarrow> 'c list \<Rightarrow> error + 'c list" where
  "GatedActivation_forward cmul G x =
     (case run_gates G x of
        Inl e \<Rightarrow> Inl e
      | Inr g \<Rightarrow>
          (case forward_blocks cmul G x g [0..<length (repr_in G)] of
             Inl e \<Rightarrow> Inl e
           | Inr (begin_x, begin_g, zs) \<Rightarrow>
               if zs = [] then Inl RuntimeError else Inr (concat zs)))"

text \<open>The number of channels that a representation list declares, and the closed forms of
  the two running offsets of the loop.\<close>

definition block_start :: "nat list \<Rightarrow> nat \<Rightarrow> nat" where
  "block_start ms n = (\<Sum>k<n. ms ! k * (2 * k + 1))"

definition gate_start :: "nat list \<Rightarrow> nat \<Rightarrow> nat" where
  "gate_start ms n = (\<Sum>k<n. if k = 0 then 0 else ms ! k)"

definition n_channels :: "nat list \<Rightarrow> nat" where
  "n_channels ms = block_start ms (length ms)"

text \<open>
  Block \<open>n\<close> of the output as the spec describes it: the channels of the input from
  \<open>block_start\<close> on, through the scalar activation for \<open>n = 0\<close>, and for \<open>n > 0\<close> each
  multiplied by the gate channel of its capsule when there is a gate tensor \<open>g\<close>.
\<close>

definition processed_block ::
  "('c \<Rightarrow> 'c \<Rightarrow> 'c) \<Rightarrow> 'c gated_activation \<Rightarrow> 'c list \<Rightarrow> 'c list option \<Rightarrow> nat \<Rightarrow> 'c list" where
  "processed_block cmul G x g n =
     (let ms = repr_in G;
          block = map (\<lambda>c. x ! (block_start ms n + c)) [0..<ms ! n * (2 * n + 1)]
      in if n = 0 then (case scalar_act G of Some act \<Rightarrow> act block | None \<Rightarrow> block)
         else (case g of
                 None \<Rightarrow> block
               | Some g' \<Rightarrow>
                   map (\<lambda>c. cmul (block ! c) (g' ! (gate_start ms n + c div (2 * n + 1))))
                       [0..<ms ! n * (2 * n + 1)]))"

section \<open>Example inputs\<close>

text \<open>
  One output block of multiplicity 1 and one input block of multiplicity 2, both of dimension 1,
  kernel size 1, and two basis elements for the pair. Both elements have norm
  \<open>sqrt (1 / 2) / sqrt 2 = 1 / 2\<close>, as the normalisation leaves them.
\<close>

definition C_two :: combination where
  "C_two = \<lparr> csize = 1, multiplicites_out = [1], multiplicites_in = [2],
             dims_out = [1], dims_in = [1],
             kernels = [[[[[[[[1 / 2]]]]], [[[[[1 / 2]]]]]]]],
             nweights = 4 \<rparr>"

text \<open>
  Collaborators for the gated activation on channels that hold one real number: a scalar
  activation that leaves every channel as it is and a convolution whose output channels all
  hold 2. \<open>G_gated\<close> is the module built from them for one scalar field and one field of
  order 1, with a gate activation and kernel size 3.
\<close>

definition SA_id :: "(nat \<times> unit) list \<Rightarrow> nat \<Rightarrow> real \<Rightarrow> real" where
  "SA_id groups c ch = ch"

definition Conv_two ::
  "conv_kind \<Rightarrow> (nat \<times> repr) list \<Rightarrow> (nat \<times> repr) list \<Rightarrow> int \<Rightarrow> real list \<Rightarrow> nat \<Rightarrow> real" where
  "Conv_two kind Rs_in Rs_out size' x c = 2"

definition G_gated :: "real gated_activation" where
  "G_gated =
     \<lparr> repr_in = [1, 1], scalar_act = None,
       gates = Some (\<lambda>x.
         case apply_Convolution Conv_two SE3Convolution (zip [1, 1] [0..<8]) [(1, 0)] 3 x of
           Inl e \<Rightarrow> Inl e
         | Inr y \<Rightarrow> Inr (apply_ScalarActivation SA_id [(1, ())] y)) \<rparr>"

text \<open>
  The normalisation of one basis element as the spec states it: divided by its norm, times
  \<open>sqrt (dim R_out / basis_count)\<close>, divided by \<open>sqrt multiplicity_in\<close>.
\<close>

definition normalized :: "nat \<Rightarrow> nat \<Rightarrow> nat \<Rightarrow> tensor5 \<Rightarrow> tensor5" where
  "normalized d_out m_in basis_count b =
     map5 (\<lambda>x. x / linalg_norm b * sqrt (real d_out / real basis_count) / sqrt (real m_in)) b"

text \<open>Generators that return one element each, for kernel size 1 and dimension 1.\<close>

definition cube_one :: "nat \<Rightarrow> repr \<Rightarrow> repr \<Rightarrow> nat \<Rightarrow> tensor5 list" where
  "cube_one size' R_out R_in M = [[[[[[1]]]]]]"

definition so3_one :: "repr \<Rightarrow> repr \<Rightarrow> real list list list" where
  "so3_one R_out R_in = [[[1]]]"

text \<open>
  The sampled generator returns, for every pair of representations of the two lists, elements
  of the shape \<open>(dim R_out, dim R_in, size, size, size)\<close>.
\<close>

definition basis_shaped ::
  "nat \<Rightarrow> nat \<Rightarrow> (nat \<Rightarrow> repr \<Rightarrow> repr \<Rightarrow> nat \<Rightarrow> tensor5 list) \<Rightarrow>
   (nat \<times> repr) list \<Rightarrow> (nat \<times> repr) list \<Rightarrow> bool" where
  "basis_shaped size' M cube Rs_out Rs_in \<longleftrightarrow>
     (\<forall>(m_out, R_out) \<in> set Rs_out. \<forall>(m_in, R_in) \<in> set Rs_in.
        \<forall>T \<in> set (cube size' R_out R_in M). shape5 (SO3_dim R_out) (SO3_dim R_in) size' T)"

section \<open>The number of weights\<close>

lemma foldl_add_sum:
  "foldl (\<lambda>n i. n + f i) a [0..<n] = a + (\<Sum>i<n. f i)" for f :: "nat \<Rightarrow> nat"
  by (induction n) simp_all

lemma count_weights_sum:
  "count_weights ms_out ms_in ks =
     (\<Sum>i<length ms_out. \<Sum>j<length ms_in. ms_out ! i * ms_in ! j * length (ks ! i ! j))"
  unfolding count_weights_def by (simp add: foldl_add_sum)

section \<open>What the loops of the combination write\<close>

text \<open>
  C1. The spec has \<^verbatim>\<open>forward\<close> add each basis element times its weight into the block of
  the kernel. The loop assigns instead, so of the basis elements of one pair only the last
  one stays: with the two elements of \<open>C_two\<close>, both \<open>1 / 2\<close>, and the weights 1, 2, 3, 4, the
  two blocks of the kernel hold \<open>2 * (1 / 2)\<close> and \<open>4 * (1 / 2)\<close>, not the sums
  \<open>(1 + 2) / 2\<close> and \<open>(3 + 4) / 2\<close>, whatever the memory held.
\<close>

theorem forward_keeps_last_basis_element:
  "forward mem C_two [1, 2, 3, 4] = Inr [[[[[1]]], [[[2]]]]]"
  by code_simp

text \<open>
  C2. \<^verbatim>\<open>backward\<close> writes, for every basis element, its dot product with the block of the
  kernel gradient, which is the adjoint of the sum. On \<open>C_two\<close>, with the gradient of all
  ones, the two sides of the adjoint equation are 5 and 3.
\<close>

theorem backward_not_adjoint_of_forward:
  "backward gmem C_two [[[[[1]]], [[[1]]]]] = Inr [1 / 2, 1 / 2, 1 / 2, 1 / 2]
   \<and> forward mem C_two [1, 2, 3, 4] = Inr [[[[[1]]], [[[2]]]]]
   \<and> dot [1 / 2, 1 / 2, 1 / 2, 1 / 2] [1, 2, 3, 4] = 5
   \<and> dot (view1 [[[[[1]]], [[[1]]]]]) (view1 [[[[[1]]], [[[2]]]]]) = 3"
  by code_simp

lemma init_empty_basis:
  "SE3KernelCombination_init 1 [(1, 0)] [(1, 0)] 15 True (\<lambda>s a b m. []) (\<lambda>a b. []) =
     \<lparr> csize = 1, multiplicites_out = [1], multiplicites_in = [1], dims_out = [1], dims_in = [1],
       kernels = [[[]]], nweights = 0 \<rparr>"
  by (simp add: SE3KernelCombination_init_def generate_basis_def count_weights_def SO3_dim_def)

text \<open>
  C3. A pair of representations with an empty basis adds no weight, but its block of the
  kernel is never written: \<^verbatim>\<open>forward\<close> returns there what the uninitialised allocation
  held, which need not be zero.
\<close>

theorem forward_empty_basis_returns_memory:
  "nweights (SE3KernelCombination_init 1 [(1, 0)] [(1, 0)] 15 True (\<lambda>s a b m. []) (\<lambda>a b. [])) = 0
   \<and> forward mem (SE3KernelCombination_init 1 [(1, 0)] [(1, 0)] 15 True (\<lambda>s a b m. []) (\<lambda>a b. [])) []
       = Inr [[[[[mem 0 0 0 0 0]]]]]"
  unfolding init_empty_basis by code_simp

section \<open>The constructor of the gated activation\<close>

text \<open>
  C5, as amended. When a gate activation is given, some multiplicity of a non-scalar
  representation is positive (\<^verbatim>\<open>sum(repr_in[1:]) > 0\<close>) and the kernel size is even, the
  constructor fails with the assertion, whatever the other arguments are.
\<close>

theorem gate_with_even_size_fails:
  "snd (unpack_activation activation) \<noteq> None \<Longrightarrow> sum_list (drop 1 ms) > 0 \<Longrightarrow>
   size' mod 2 \<noteq> 1 \<Longrightarrow>
   GatedActivation_init SA Conv ms size' activation normalization batch_norm_momentum
     = Inl AssertionError"
  by (cases ms)
     (auto simp add: GatedActivation_init_def unpack_activation_def Let_def
        split: activation.splits option.splits)

theorem gate_with_even_size_fails_witness:
  "snd (unpack_activation (Tuple None (Some ()))) \<noteq> None \<and> sum_list (drop 1 [1, 1 :: nat]) > 0
   \<and> (4 :: int) mod 2 \<noteq> 1
   \<and> GatedActivation_init SA_id Conv_two [1, 1] 4 (Tuple None (Some ())) None (1 / 10)
        = Inl AssertionError"
  using gate_with_even_size_fails [of "Tuple None (Some ())" "[1, 1]" 4 SA_id Conv_two None "1 / 10"]
  by (simp add: unpack_activation_def)

text \<open>
  The claim as stated, for every representation list, fails: with scalar fields only the
  guard skips the assertion, and a gate activation with the even size 4 is accepted; the
  module has no gates.
\<close>

theorem gate_with_even_size_accepted_without_non_scalar:
  "GatedActivation_init SA_id Conv_two [2] 4 (Tuple None (Some ())) None (1 / 10)
     = Inr \<lparr> repr_in = [2], scalar_act = None, gates = None \<rparr>"
  by (simp add: GatedActivation_init_def unpack_activation_def)

section \<open>The loop of the gated activation\<close>

lemma forward_blocks_snoc:
  "forward_blocks cmul G x g (ns @ [n]) =
     (case forward_blocks cmul G x g ns of Inl e \<Rightarrow> Inl e
      | Inr s \<Rightarrow> forward_block cmul G x g s n)"
  by (simp add: forward_blocks_def)

lemma take_drop_nth:
  "a + n \<le> length xs \<Longrightarrow> take n (drop a xs) = map (\<lambda>c. xs ! (a + c)) [0..<n]"
  by (auto simp: list_eq_iff_nth_eq)

lemma block_start_Suc: "block_start ms (Suc k) = block_start ms k + ms ! k * (2 * k + 1)"
  by (simp add: block_start_def)

lemma gate_start_Suc:
  "gate_start ms (Suc k) = gate_start ms k + (if k = 0 then 0 else ms ! k)"
  by (simp add: gate_start_def)

lemma block_start_mono: "k \<le> l \<Longrightarrow> block_start ms k \<le> block_start ms l"
  by (induction l) (auto simp: block_start_Suc le_Suc_eq)

lemma gate_start_mono: "k \<le> l \<Longrightarrow> gate_start ms k \<le> gate_start ms l"
  by (induction l) (auto simp: gate_start_Suc le_Suc_eq)

lemma forward_block_zero:
  "repr_in G ! n = 0 \<Longrightarrow> forward_block cmul G x g s n = Inr s"
  by (cases s) (simp add: forward_block_def)

lemma forward_block_step:
  assumes mul: "repr_in G ! n \<noteq> 0"
    and x: "block_start (repr_in G) (Suc n) \<le> length x"
    and gl: "\<And>g'. g = Some g' \<Longrightarrow> gate_start (repr_in G) (Suc n) \<le> length g'"
  shows "forward_block cmul G x g
           (block_start (repr_in G) n, (if g = None then 0 else gate_start (repr_in G) n), zs) n =
         Inr (block_start (repr_in G) (Suc n),
              (if g = None then 0 else gate_start (repr_in G) (Suc n)),
              zs @ [processed_block cmul G x g n])"
proof -
  let ?ms = "repr_in G"
  let ?len = "?ms ! n * (2 * n + 1)"
  have fx: "take ?len (drop (block_start ?ms n) x) = map (\<lambda>c. x ! (block_start ?ms n + c)) [0..<?len]"
    using x by (intro take_drop_nth) (simp add: block_start_Suc)
  show ?thesis
  proof (cases "n = 0")
    case True
    then show ?thesis
      using mul fx by (auto simp add: forward_block_def processed_block_def Let_def block_start_Suc
          gate_start_Suc split: option.splits)
  next
    case n: False
    show ?thesis
    proof (cases g)
      case None
      then show ?thesis
        using mul fx n by (simp add: forward_block_def processed_block_def Let_def block_start_Suc)
    next
      case (Some g')
      have le: "gate_start ?ms n + ?ms ! n \<le> length g'"
        using gl [OF Some] n by (simp add: gate_start_Suc)
      have fg: "take (?ms ! n) (drop (gate_start ?ms n) g') =
                map (\<lambda>c. g' ! (gate_start ?ms n + c)) [0..<?ms ! n]"
        using le by (rule take_drop_nth)
      have dv: "c div (2 * n + 1) < ?ms ! n" if "c < ?len" for c
        using that by (simp add: less_mult_imp_div_less)
      have lx: "?len \<le> length x - block_start ?ms n"
        using x by (simp add: block_start_Suc)
      have lg: "?ms ! n \<le> length g' - gate_start ?ms n"
        using le by simp
      show ?thesis
        using mul n Some fx fg dv lx lg
        by (simp add: forward_block_def processed_block_def Let_def block_start_Suc gate_start_Suc
            del: upt_Suc)
    qed
  qed
qed

lemma forward_blocks_inv:
  assumes x: "length x = n_channels (repr_in G)"
    and gl: "\<And>g'. g = Some g' \<Longrightarrow> gate_start (repr_in G) (length (repr_in G)) \<le> length g'"
  shows "k \<le> length (repr_in G) \<Longrightarrow>
         forward_blocks cmul G x g [0..<k] =
           Inr (block_start (repr_in G) k, (if g = None then 0 else gate_start (repr_in G) k),
                map (processed_block cmul G x g) (filter (\<lambda>n. repr_in G ! n \<noteq> 0) [0..<k]))"
proof (induction k)
  case 0
  show ?case by (simp add: forward_blocks_def block_start_def gate_start_def)
next
  case (Suc k)
  then have IH: "forward_blocks cmul G x g [0..<k] =
           Inr (block_start (repr_in G) k, (if g = None then 0 else gate_start (repr_in G) k),
                map (processed_block cmul G x g) (filter (\<lambda>n. repr_in G ! n \<noteq> 0) [0..<k]))"
    and k: "Suc k \<le> length (repr_in G)" by simp_all
  show ?case
  proof (cases "repr_in G ! k = 0")
    case True
    then show ?thesis
      by (simp add: forward_blocks_snoc IH forward_block_zero block_start_Suc gate_start_Suc)
  next
    case False
    have bx: "block_start (repr_in G) (Suc k) \<le> length x"
      using block_start_mono [OF k, of "repr_in G"] x by (simp add: n_channels_def)
    have bg: "gate_start (repr_in G) (Suc k) \<le> length g'" if "g = Some g'" for g'
      using gate_start_mono [OF k, of "repr_in G"] gl [OF that] by simp
    show ?thesis
      by (simp add: forward_blocks_snoc IH forward_block_step [OF False bx bg] False)
  qed
qed

lemma forward_blocks_all_zero:
  "\<forall>m \<in> set (repr_in G). m = 0 \<Longrightarrow> k \<le> length (repr_in G) \<Longrightarrow>
   forward_blocks cmul G x g [0..<k] = Inr (0, 0, [])"
proof (induction k)
  case 0
  show ?case by (simp add: forward_blocks_def)
next
  case (Suc k)
  then have "repr_in G ! k = 0" by simp
  with Suc show ?case
    by (simp add: forward_blocks_snoc forward_block_zero)
qed

lemma filter_nonzero_empty:
  "filter (\<lambda>n. ms ! n \<noteq> (0::nat)) [0..<length ms] = [] \<longleftrightarrow> (\<forall>m \<in> set ms. m = 0)"
  by (auto simp: filter_empty_conv all_set_conv_all_nth)

lemma GatedActivation_forward_eq:
  assumes x: "length x = n_channels (repr_in G)"
    and rg: "run_gates G x = Inr g"
    and gl: "\<And>g'. g = Some g' \<Longrightarrow> gate_start (repr_in G) (length (repr_in G)) \<le> length g'"
    and nz: "\<exists>m \<in> set (repr_in G). m \<noteq> 0"
  shows "GatedActivation_forward cmul G x =
           Inr (concat (map (processed_block cmul G x g)
                  (filter (\<lambda>n. repr_in G ! n \<noteq> 0) [0..<length (repr_in G)])))"
proof -
  have ne: "filter (\<lambda>n. repr_in G ! n \<noteq> 0) [0..<length (repr_in G)] \<noteq> []"
  proof
    assume "filter (\<lambda>n. repr_in G ! n \<noteq> 0) [0..<length (repr_in G)] = []"
    then have "\<forall>m \<in> set (repr_in G). m = 0"
      by (rule iffD1 [OF filter_nonzero_empty])
    with nz show False by simp
  qed
  have fb: "forward_blocks cmul G x g [0..<length (repr_in G)] =
      Inr (block_start (repr_in G) (length (repr_in G)),
           (if g = None then 0 else gate_start (repr_in G) (length (repr_in G))),
           map (processed_block cmul G x g)
             (filter (\<lambda>n. repr_in G ! n \<noteq> 0) [0..<length (repr_in G)]))"
    by (rule forward_blocks_inv [OF x gl le_refl])
  have "GatedActivation_forward cmul G x =
      (case forward_blocks cmul G x g [0..<length (repr_in G)] of
         Inl e \<Rightarrow> Inl e
       | Inr (begin_x, begin_g, zs) \<Rightarrow> if zs = [] then Inl RuntimeError else Inr (concat zs))"
    unfolding GatedActivation_forward_def rg by (simp only: sum.case)
  also have "\<dots> = Inr (concat (map (processed_block cmul G x g)
                  (filter (\<lambda>n. repr_in G ! n \<noteq> 0) [0..<length (repr_in G)])))"
    unfolding fb by (simp only: sum.case prod.case ne if_False map_is_Nil_conv)
  finally show ?thesis .
qed

lemma gate_start_length: "gate_start ms (length ms) = sum_list (drop 1 ms)"
proof (cases ms)
  case Nil
  then show ?thesis by (simp add: gate_start_def)
next
  case (Cons m ms')
  have "gate_start (m # ms') (Suc (length ms')) = (\<Sum>k<length ms'. ms' ! k)"
    unfolding gate_start_def by (subst sum.lessThan_Suc_shift) simp
  also have "\<dots> = sum_list ms'"
    by (simp add: sum_list_sum_nth atLeast0LessThan)
  finally show ?thesis using Cons by simp
qed

text \<open>
  The gate convolution is declared on \<^verbatim>\<open>zip(repr_in, irreducible_repr)\<close>, which stops at the
  eighth entry: the channels it declares are those of the first eight entries of the
  representation list.
\<close>

lemma zip_upt_nth: "zip ms [0..<k] = map (\<lambda>n. (ms ! n, n)) [0..<min (length ms) k]"
  by (rule nth_equalityI) auto

lemma declared_channels_zip:
  "sum_list (map (\<lambda>(m, R). m * SO3_dim R) (zip ms [0..<k])) = n_channels (take k ms)"
proof -
  have "sum_list (map (\<lambda>(m, R). m * SO3_dim R) (zip ms [0..<k])) =
        sum_list (map (\<lambda>n. ms ! n * (2 * n + 1)) [0..<min (length ms) k])"
    by (simp add: zip_upt_nth SO3_dim_def comp_def)
  also have "\<dots> = (\<Sum>n<min (length ms) k. ms ! n * (2 * n + 1))"
    by (simp add: interv_sum_list_conv_sum_set_nat atLeast0LessThan)
  also have "\<dots> = n_channels (take k ms)"
    by (simp add: n_channels_def block_start_def)
  finally show ?thesis .
qed

text \<open>
  The first eight entries declare all channels of the list exactly when no entry from the
  ninth on has a multiplicity that is not zero.
\<close>

lemma block_start_take: "k \<le> j \<Longrightarrow> block_start (take j ms) k = block_start ms k"
  by (simp add: block_start_def)

lemma block_start_tail_zero:
  "k \<le> l \<Longrightarrow> block_start ms l = block_start ms k \<longleftrightarrow> (\<forall>n<l. k \<le> n \<longrightarrow> ms ! n = 0)"
proof (induction l)
  case 0
  then show ?case by simp
next
  case (Suc l)
  show ?case
  proof (cases "k = Suc l")
    case True
    then show ?thesis by auto
  next
    case False
    with Suc.prems have kl: "k \<le> l" by simp
    have mono: "block_start ms k \<le> block_start ms l" using kl by (rule block_start_mono)
    have "block_start ms (Suc l) = block_start ms k \<longleftrightarrow>
          block_start ms l = block_start ms k \<and> ms ! l = 0"
      using mono by (auto simp: block_start_Suc)
    also have "\<dots> \<longleftrightarrow> (\<forall>n<l. k \<le> n \<longrightarrow> ms ! n = 0) \<and> ms ! l = 0"
      by (simp only: Suc.IH [OF kl])
    also have "\<dots> \<longleftrightarrow> (\<forall>n<Suc l. k \<le> n \<longrightarrow> ms ! n = 0)"
      using kl by (auto simp: less_Suc_eq)
    finally show ?thesis .
  qed
qed

lemma declared_by_first_eight:
  "n_channels (take 8 ms) = n_channels ms \<longleftrightarrow> (\<forall>n<length ms. 8 \<le> n \<longrightarrow> ms ! n = 0)"
proof (cases "length ms \<le> 8")
  case True
  then show ?thesis by simp
next
  case False
  then have l: "8 \<le> length ms" by simp
  have "n_channels (take 8 ms) = block_start ms 8"
    using l by (simp add: n_channels_def block_start_take min_def)
  then show ?thesis
    using block_start_tail_zero [OF l, of ms] by (auto simp: n_channels_def)
qed

lemma SO3_dim_0: "SO3_dim 0 = 1"
  by (simp add: SO3_dim_def)

lemma init_fields:
  assumes "GatedActivation_init SA Conv ms size' activation normalization momentum = Inr G"
  shows "repr_in G = ms"
    and "scalar_act G = Some a \<Longrightarrow> ms \<noteq> [] \<and> 0 < ms ! 0 \<and> length (a xs) = length xs"
    and "gates G = Some f \<Longrightarrow> length x = n_channels (take 8 ms) \<Longrightarrow>
         \<exists>g. f x = Inr g \<and> length g = sum_list (drop 1 ms)"
    and "gates G = Some f \<Longrightarrow> length x \<noteq> n_channels (take 8 ms) \<Longrightarrow> f x = Inl RuntimeError"
  using assms
  by (auto simp: GatedActivation_init_def unpack_activation_def Let_def apply_ScalarActivation_def
      apply_Convolution_def declared_channels_zip SO3_dim_0
      split: activation.splits option.splits if_splits sum.splits)

lemma init_all_zero_no_gates:
  assumes init: "GatedActivation_init SA Conv ms size' activation normalization momentum = Inr G"
    and zero: "\<forall>m \<in> set ms. m = 0"
  shows "gates G = None"
proof -
  have "\<forall>m \<in> set (drop 1 ms). m = 0"
    using zero by (auto dest: in_set_dropD)
  then have none: "sum_list (drop 1 ms) = 0" by simp
  show ?thesis
  proof (rule ccontr)
    assume "gates G \<noteq> None"
    then have "0 < sum_list (drop 1 ms)"
      using init
      by (auto simp: GatedActivation_init_def unpack_activation_def Let_def
          split: activation.splits option.splits if_splits sum.splits)
    with none show False by linarith
  qed
qed

lemma concat_map_filter_nil:
  "(\<And>n. n \<in> set ns \<Longrightarrow> \<not> P n \<Longrightarrow> f n = []) \<Longrightarrow>
   concat (map f (filter P ns)) = concat (map f ns)"
  by (induction ns) auto

lemma sum_list_filter_block_start:
  "sum_list (map (\<lambda>n. ms ! n * (2 * n + 1)) (filter (\<lambda>n. ms ! n \<noteq> 0) [0..<k])) =
   block_start ms k"
proof (induction k)
  case 0
  show ?case by (simp add: block_start_def)
next
  case (Suc k)
  then show ?case by (simp add: block_start_Suc)
qed

lemma length_processed_block:
  assumes "\<And>a xs. scalar_act G = Some a \<Longrightarrow> length (a xs) = length xs"
  shows "length (processed_block cmul G x g n) = repr_in G ! n * (2 * n + 1)"
  using assms by (auto simp: processed_block_def Let_def split: option.splits)

lemma GatedActivation_forward_init:
  assumes init: "GatedActivation_init SA Conv ms size' activation normalization momentum = Inr G"
    and x: "length x = n_channels ms"
    and nz: "\<exists>m \<in> set ms. m \<noteq> 0"
    and rg: "run_gates G x = Inr g"
    and gl: "\<And>g'. g = Some g' \<Longrightarrow> length g' = sum_list (drop 1 ms)"
  shows "GatedActivation_forward cmul G x =
           Inr (concat (map (processed_block cmul G x g) [0..<length ms]))"
    and "length (concat (map (processed_block cmul G x g) [0..<length ms])) = length x"
proof -
  note ms = init_fields(1) [OF init]
  have len: "length (processed_block cmul G x g n) = ms ! n * (2 * n + 1)" for n
    using length_processed_block [of G cmul x g n] init_fields(2) [OF init] ms by simp
  have nil: "processed_block cmul G x g n = []" if "\<not> ms ! n \<noteq> 0" for n
    using len [of n] that by simp
  have drop_filter: "concat (map (processed_block cmul G x g) (filter (\<lambda>n. ms ! n \<noteq> 0) [0..<length ms])) =
        concat (map (processed_block cmul G x g) [0..<length ms])"
    by (rule concat_map_filter_nil) (rule nil)
  have gl': "gate_start (repr_in G) (length (repr_in G)) \<le> length g'" if "g = Some g'" for g'
    using gl [OF that] by (simp add: ms gate_start_length)
  have "GatedActivation_forward cmul G x =
           Inr (concat (map (processed_block cmul G x g)
                  (filter (\<lambda>n. repr_in G ! n \<noteq> 0) [0..<length (repr_in G)])))"
    using x nz rg by (intro GatedActivation_forward_eq gl') (simp_all add: ms)
  then show "GatedActivation_forward cmul G x =
           Inr (concat (map (processed_block cmul G x g) [0..<length ms]))"
    by (simp only: ms drop_filter)
  have "length (concat (map (processed_block cmul G x g) (filter (\<lambda>n. ms ! n \<noteq> 0) [0..<length ms]))) =
        sum_list (map (\<lambda>n. ms ! n * (2 * n + 1)) (filter (\<lambda>n. ms ! n \<noteq> 0) [0..<length ms]))"
    by (simp add: length_concat comp_def len)
  also have "\<dots> = length x"
    by (simp only: sum_list_filter_block_start x n_channels_def)
  finally show "length (concat (map (processed_block cmul G x g) [0..<length ms])) = length x"
    by (simp only: drop_filter)
qed

lemma run_gates_init:
  assumes init: "GatedActivation_init SA Conv ms size' activation normalization momentum = Inr G"
    and x: "length x = n_channels ms"
    and dec: "gates G = None \<or> n_channels (take 8 ms) = n_channels ms"
  shows "\<exists>g. run_gates G x = Inr g \<and> (\<forall>g'. g = Some g' \<longrightarrow> length g' = sum_list (drop 1 ms))"
proof (cases "gates G")
  case None
  then show ?thesis by (simp add: run_gates_def)
next
  case (Some f)
  with dec x have "length x = n_channels (take 8 ms)" by simp
  from init_fields(3) [OF init Some this] obtain g' where
    "f x = Inr g'" "length g' = sum_list (drop 1 ms)" by blast
  with Some show ?thesis by (simp add: run_gates_def)
qed

lemma GatedActivation_forward_all_zero:
  assumes "\<forall>m \<in> set (repr_in G). m = 0"
  shows "\<exists>e. GatedActivation_forward cmul G x = Inl e"
  unfolding GatedActivation_forward_def
  by (simp add: forward_blocks_all_zero [OF assms le_refl] split: sum.splits)

text \<open>
  C6, as amended. For a module as the constructor returns it, whatever the collaborators
  compute, an input with the channels that the representation list declares, at least one
  multiplicity that is not zero, and, when the module has gates, a representation list whose
  first eight entries declare all of its channels (no entry from the ninth on has a
  multiplicity that is not zero), which are the channels that the gate convolution is
  declared on: the gate convolution does not fail, and \<^verbatim>\<open>forward\<close> returns a
  tensor with as many channels as the input, made of the processed blocks in the order of
  the representation list. Every channel of a block is the input channel at the same
  position, through the scalar activation or multiplied by a channel of the gate tensor
  \<open>g\<close>: no gate channel is part of the output.
\<close>

theorem gated_forward_keeps_channels:
  assumes "GatedActivation_init SA Conv ms size' activation normalization momentum = Inr G"
    and "length x = n_channels ms"
    and "\<exists>m \<in> set ms. m \<noteq> 0"
    and "gates G = None \<or> n_channels (take 8 ms) = n_channels ms"
  shows "\<exists>g y. run_gates G x = Inr g \<and> GatedActivation_forward cmul G x = Inr y
             \<and> length y = length x
             \<and> y = concat (map (processed_block cmul G x g) [0..<length ms])"
proof -
  from run_gates_init [OF assms(1,2,4)] obtain g where
    rg: "run_gates G x = Inr g" and gl: "\<And>g'. g = Some g' \<Longrightarrow> length g' = sum_list (drop 1 ms)"
    by blast
  show ?thesis
    using GatedActivation_forward_init [OF assms(1,2,3) rg gl, of cmul] rg by simp
qed

lemma init_G_gated:
  "GatedActivation_init SA_id Conv_two [1, 1] 3 (Tuple None (Some ())) None (1 / 10) = Inr G_gated"
  by (simp add: GatedActivation_init_def unpack_activation_def G_gated_def choose_Convolution_def
      cong: sum.case_cong)

theorem gated_forward_keeps_channels_witness:
  "GatedActivation_init SA_id Conv_two [1, 1] 3 (Tuple None (Some ())) None (1 / 10) = Inr G_gated
   \<and> length [1, 2, 3, 4 :: real] = n_channels [1, 1]
   \<and> (\<exists>m \<in> set [1, 1 :: nat]. m \<noteq> 0)
   \<and> n_channels (take 8 [1, 1]) = n_channels [1, 1]
   \<and> (\<exists>g y. run_gates G_gated [1, 2, 3, 4] = Inr g
           \<and> GatedActivation_forward (\<lambda>a b. a * b) G_gated [1, 2, 3, 4] = Inr y
           \<and> length y = length [1, 2, 3, 4 :: real]
           \<and> y = concat (map (processed_block (\<lambda>a b. a * b) G_gated [1, 2, 3, 4] g)
                              [0..<length [1, 1 :: nat]]))"
proof -
  have len: "length [1, 2, 3, 4 :: real] = n_channels [1, 1]"
    by (simp add: n_channels_def block_start_def)
  have nz: "\<exists>m \<in> set [1, 1 :: nat]. m \<noteq> 0" by simp
  have dec: "n_channels (take 8 [1, 1]) = n_channels [1, 1]" by simp
  have dec': "gates G_gated = None \<or> n_channels (take 8 [1, 1]) = n_channels [1, 1]" by simp
  show ?thesis
    using gated_forward_keeps_channels [OF init_G_gated len nz dec', of "\<lambda>a b. a * b"]
      init_G_gated len nz dec
    by blast
qed

text \<open>
  The claim as stated, for every input that matches the representation list, fails on a
  list of zeros: the input with no channel matches it, and \<^verbatim>\<open>forward\<close> raises.
\<close>

theorem gated_forward_all_zero_fails:
  "GatedActivation_init SA_id Conv_two [0] 3 (Tuple None None) None (1 / 10)
     = Inr \<lparr> repr_in = [0], scalar_act = None, gates = None \<rparr>
   \<and> length ([] :: real list) = n_channels [0]
   \<and> GatedActivation_forward (\<lambda>a b. a * b) \<lparr> repr_in = [0], scalar_act = None, gates = None \<rparr> []
       = Inl RuntimeError"
  by (simp add: GatedActivation_init_def unpack_activation_def n_channels_def block_start_def
      GatedActivation_forward_def run_gates_def forward_blocks_def forward_block_def)

text \<open>
  The condition on the first eight entries is needed. A module with gates whose input does
  not have the channels of the first eight entries of its representation list fails at the
  gate convolution, also when the input matches the whole list: so it is for the list
  \<open>[1, 1, 0, 0, 0, 0, 0, 0, 1]\<close>, whose 21 channels are not the 4 that the gate convolution is
  declared on.
\<close>

lemma gated_forward_gate_mismatch:
  assumes init: "GatedActivation_init SA Conv ms size' activation normalization momentum = Inr G"
    and f: "gates G \<noteq> None"
    and x: "length x \<noteq> n_channels (take 8 ms)"
  shows "GatedActivation_forward cmul G x = Inl RuntimeError"
proof -
  from f obtain f' where f': "gates G = Some f'" by blast
  show ?thesis
    unfolding GatedActivation_forward_def run_gates_def
    by (simp add: f' init_fields(4) [OF init f' x])
qed

lemma gated_forward_order_eight_fails:
  "\<exists>G. GatedActivation_init SA_id Conv_two [1, 1, 0, 0, 0, 0, 0, 0, 1] 3 (Tuple None (Some ()))
          None (1 / 10) = Inr G
       \<and> length (replicate 21 (0 :: real)) = n_channels [1, 1, 0, 0, 0, 0, 0, 0, 1]
       \<and> GatedActivation_forward (\<lambda>a b. a * b) G (replicate 21 0) = Inl RuntimeError"
proof -
  obtain G where init: "GatedActivation_init SA_id Conv_two [1, 1, 0, 0, 0, 0, 0, 0, 1] 3
      (Tuple None (Some ())) None (1 / 10) = Inr G" and g: "gates G \<noteq> None"
    by (simp add: GatedActivation_init_def unpack_activation_def choose_Convolution_def)
  have len: "length (replicate 21 (0 :: real)) = n_channels [1, 1, 0, 0, 0, 0, 0, 0, 1]"
    by (simp add: n_channels_def block_start_def lessThan_nat_numeral lessThan_Suc)
  have ne: "length (replicate 21 (0 :: real)) \<noteq> n_channels (take 8 [1, 1, 0, 0, 0, 0, 0, 0, 1])"
    by (simp add: n_channels_def block_start_def lessThan_nat_numeral lessThan_Suc)
  show ?thesis
    using init len gated_forward_gate_mismatch [OF init g ne, of "\<lambda>a b. a * b"] by blast
qed

text \<open>
  C10. For a module as the constructor returns it with every multiplicity zero, and every
  input: the module has no gates, the loop over the representation list leaves the list of
  processed blocks empty, and \<^verbatim>\<open>forward\<close> fails at the concatenation.
\<close>

theorem gated_forward_all_zero_always_fails:
  assumes "GatedActivation_init SA Conv ms size' activation normalization momentum = Inr G"
    and "\<forall>m \<in> set ms. m = 0"
  shows "run_gates G x = Inr None
         \<and> forward_blocks cmul G x None [0..<length (repr_in G)] = Inr (0, 0, [])
         \<and> GatedActivation_forward cmul G x = Inl RuntimeError"
proof -
  have zero: "\<forall>m \<in> set (repr_in G). m = 0"
    using assms(2) by (simp only: init_fields(1) [OF assms(1)])
  have rg: "run_gates G x = Inr None"
    by (simp add: run_gates_def init_all_zero_no_gates [OF assms])
  have fb: "forward_blocks cmul G x None [0..<length (repr_in G)] = Inr (0, 0, [])"
    by (rule forward_blocks_all_zero [OF zero le_refl])
  have "GatedActivation_forward cmul G x = Inl RuntimeError"
    unfolding GatedActivation_forward_def rg by (simp add: fb)
  with rg fb show ?thesis by simp
qed

theorem gated_forward_all_zero_always_fails_witness:
  "GatedActivation_init SA_id Conv_two [0, 0] 3 (Tuple (Some ()) (Some ())) None (1 / 10)
     = Inr \<lparr> repr_in = [0, 0], scalar_act = None, gates = None \<rparr>
   \<and> set [0, 0 :: nat] = {0}
   \<and> GatedActivation_forward (\<lambda>a b. a * b) \<lparr> repr_in = [0, 0], scalar_act = None, gates = None \<rparr>
        [1, 2, 3 :: real] = Inl RuntimeError"
proof -
  have init: "GatedActivation_init SA_id Conv_two [0, 0] 3 (Tuple (Some ()) (Some ())) None (1 / 10)
     = Inr \<lparr> repr_in = [0, 0], scalar_act = None, gates = None \<rparr>"
    by (simp add: GatedActivation_init_def unpack_activation_def)
  have zero: "\<forall>m \<in> set [0, 0 :: nat]. m = 0" by simp
  show ?thesis
    using gated_forward_all_zero_always_fails [OF init zero, of "[1, 2, 3 :: real]" "\<lambda>a b. a * b"]
      init
    by simp
qed

section \<open>The normalisation loop of the basis\<close>

lemma map5_map5: "map5 f (map5 g T) = map5 (\<lambda>x. f (g x)) T"
  by (simp add: map5_def comp_def)

lemma normalize_element_eq:
  "k < length basis \<Longrightarrow>
   normalize_element d_out m_in basis k =
     basis[k := normalized d_out m_in (length basis) (basis ! k)]"
  by (simp add: normalize_element_def normalized_def Let_def map5_map5)

lemma normalize_loop:
  "k \<le> length basis \<Longrightarrow>
   foldl (normalize_element d_out m_in) basis [0..<k] =
     map (\<lambda>i. if i < k then normalized d_out m_in (length basis) (basis ! i) else basis ! i)
         [0..<length basis]"
proof (induction k)
  case 0
  show ?case by (simp add: map_nth)
next
  case (Suc k)
  then have IH: "foldl (normalize_element d_out m_in) basis [0..<k] =
     map (\<lambda>i. if i < k then normalized d_out m_in (length basis) (basis ! i) else basis ! i)
         [0..<length basis]" and k: "k < length basis" by simp_all
  have "(map (\<lambda>i. if i < k then normalized d_out m_in (length basis) (basis ! i) else basis ! i)
         [0..<length basis])
        [k := normalized d_out m_in (length basis) (basis ! k)] =
        map (\<lambda>i. if i < Suc k then normalized d_out m_in (length basis) (basis ! i) else basis ! i)
         [0..<length basis]"
    by (rule nth_equalityI) (auto simp: nth_list_update less_Suc_eq)
  then show ?case
    using k by (simp add: IH normalize_element_eq)
qed

lemma generate_basis_map:
  "generate_basis size' M central_base cube so3 R_out R_in m_out m_in =
     (let raw = (if central_base \<and> size' mod 2 = 1
                 then map (center_element size' (SO3_dim R_out) (SO3_dim R_in)) (so3 R_out R_in)
                 else []) @ cube size' R_out R_in M
      in map (normalized (SO3_dim R_out) m_in (length raw)) raw)"
proof -
  have "foldl (normalize_element d m) basis [0..<length basis] =
        map (normalized d m (length basis)) basis" for d m basis
    by (subst normalize_loop) (auto intro: nth_equalityI)
  then show ?thesis
    by (simp add: generate_basis_def Let_def)
qed

lemma sqrt_half_half: "sqrt (1 / 2) / sqrt 2 = 1 / 2"
proof -
  have "sqrt (1 / 2) / sqrt 2 = sqrt ((1 / 2)\<^sup>2)"
    by (simp add: real_sqrt_divide power2_eq_square)
  also have "\<dots> = 1 / 2" by (simp only: real_sqrt_abs)
  finally show ?thesis .
qed

lemma linalg_norm_one: "linalg_norm [[[[[1]]]]] = 1"
  by (simp add: linalg_norm_def view1_def)

text \<open>
  C7. With \<open>raw\<close> the candidate elements in order, the central ones first when the size is
  odd and the option is on, \<^verbatim>\<open>generate_basis\<close> returns each of them divided by its
  Frobenius norm, times \<open>sqrt (dim R_out / basis_count)\<close>, divided by
  \<open>sqrt multiplicity_in\<close>, where \<open>basis_count\<close> is the length of \<open>raw\<close>. The divisions are
  those of the reals; the two conditions keep them away from zero, where numpy would give
  \<^verbatim>\<open>nan\<close> or \<^verbatim>\<open>inf\<close>.
\<close>

theorem generate_basis_normalizes:
  assumes "raw = (if central_base \<and> size' mod 2 = 1
                  then map (center_element size' (SO3_dim R_out) (SO3_dim R_in)) (so3' R_out R_in)
                  else []) @ cube size' R_out R_in M"
    and "0 < m_in" and "\<forall>b \<in> set raw. linalg_norm b \<noteq> 0"
  shows "generate_basis size' M central_base cube so3' R_out R_in m_out m_in =
           map (\<lambda>b. map5 (\<lambda>x. x / linalg_norm b * sqrt (real (SO3_dim R_out) / real (length raw))
                              / sqrt (real m_in)) b) raw"
  using assms(1) by (simp add: generate_basis_map Let_def normalized_def)

theorem generate_basis_normalizes_witness:
  "[[[[[[1]]]]], [[[[[1]]]]]] =
     (if True \<and> (1::nat) mod 2 = 1
      then map (center_element 1 (SO3_dim 0) (SO3_dim 0)) (so3_one 0 0) else []) @ cube_one 1 0 0 15
   \<and> (0::nat) < 2
   \<and> linalg_norm [[[[[1]]]]] \<noteq> 0
   \<and> generate_basis 1 15 True cube_one so3_one 0 0 1 2 = [[[[[[1 / 2]]]]], [[[[[1 / 2]]]]]]"
proof -
  have raw: "[[[[[[1]]]]], [[[[[1]]]]]] =
     (if True \<and> (1::nat) mod 2 = 1
      then map (center_element 1 (SO3_dim 0) (SO3_dim 0)) (so3_one 0 0) else []) @ cube_one 1 0 0 15"
    by (simp add: center_element_def center_vol_def SO3_dim_def so3_one_def cube_one_def)
  have nz: "\<forall>b \<in> set [[[[[[1]]]]], [[[[[1::real]]]]]]. linalg_norm b \<noteq> 0"
    by (simp add: linalg_norm_one)
  have "generate_basis 1 15 True cube_one so3_one 0 0 1 2 = [[[[[[1 / 2]]]]], [[[[[1 / 2]]]]]]"
    using generate_basis_normalizes [where raw = "[[[[[[1]]]]], [[[[[1]]]]]]" and central_base = True
        and size' = 1 and so3' = so3_one and cube = cube_one and R_out = 0 and R_in = 0 and M = 15
        and m_in = 2 and m_out = 1, OF raw _ nz]
    by (simp add: linalg_norm_one map5_def SO3_dim_def sqrt_half_half)
  with raw show ?thesis by (simp add: linalg_norm_one)
qed




section \<open>The shape of the combined kernel\<close>

lemma shape5_alloc5: "shape5 a b s (alloc5 mem a b s)"
  by (simp add: shape5_def vol_shape_def alloc5_def)

lemma shape5_map5: "shape5 a b s T \<Longrightarrow> shape5 a b s (map5 f T)"
  by (simp add: shape5_def vol_shape_def map5_def)

lemma shape5_center_element: "shape5 d_out d_in s (center_element s d_out d_in K)"
  by (simp add: shape5_def vol_shape_def center_element_def center_vol_def)

lemma assign_block_shape:
  assumes K: "shape5 A B s K" and T: "shape5 (i1 - i0) (j1 - j0) s T"
    and i: "i0 \<le> i1" "i1 \<le> A" and j: "j0 \<le> j1" "j1 \<le> B"
  shows "shape5 A B s (assign_block K (i0, i1) (j0, j1) T)"
proof -
  have lenK: "length K = A" and lenT: "length T = i1 - i0"
    using K T by (simp_all add: shape5_def)
  have rowK: "length row = B \<and> (\<forall>v \<in> set row. vol_shape s v)" if "row \<in> set K" for row
    using K that by (simp add: shape5_def)
  have rowT: "length row = j1 - j0 \<and> (\<forall>v \<in> set row. vol_shape s v)" if "row \<in> set T" for row
    using T that by (simp add: shape5_def)
  have len: "length (assign_block K (i0, i1) (j0, j1) T) = A"
    using i by (simp add: assign_block_def lenK lenT)
  have mid: "length r = B \<and> (\<forall>v \<in> set r. vol_shape s v)"
    if "r \<in> set (map2 (\<lambda>row trow. take j0 row @ trow @ drop j1 row)
                    (take (i1 - i0) (drop i0 K)) T)" for r
  proof -
    from that obtain p where p: "p \<in> set (zip (take (i1 - i0) (drop i0 K)) T)"
      and r: "r = take j0 (fst p) @ snd p @ drop j1 (fst p)"
      by (auto simp: case_prod_beta)
    have "fst p \<in> set (take (i1 - i0) (drop i0 K))"
      using p by (metis prod.collapse set_zip_leftD)
    then have "fst p \<in> set (drop i0 K)" by (rule in_set_takeD)
    then have rowK': "fst p \<in> set K" by (rule in_set_dropD)
    have trow: "snd p \<in> set T"
      using p by (metis prod.collapse set_zip_rightD)
    have "length r = B"
      using rowK [OF rowK'] rowT [OF trow] j by (simp add: r)
    moreover have "vol_shape s v" if "v \<in> set r" for v
    proof -
      from that consider "v \<in> set (take j0 (fst p))" | "v \<in> set (snd p)" | "v \<in> set (drop j1 (fst p))"
        by (auto simp: r)
      then show ?thesis
      proof cases
        case 1
        then have "v \<in> set (fst p)" by (rule in_set_takeD)
        then show ?thesis using rowK [OF rowK'] by simp
      next
        case 2
        then show ?thesis using rowT [OF trow] by simp
      next
        case 3
        then have "v \<in> set (fst p)" by (rule in_set_dropD)
        then show ?thesis using rowK [OF rowK'] by simp
      qed
    qed
    ultimately show ?thesis by simp
  qed
  have rows: "length r = B \<and> (\<forall>v \<in> set r. vol_shape s v)"
    if "r \<in> set (assign_block K (i0, i1) (j0, j1) T)" for r
  proof -
    from that consider "r \<in> set (take i0 K)"
      | "r \<in> set (map2 (\<lambda>row trow. take j0 row @ trow @ drop j1 row)
                    (take (i1 - i0) (drop i0 K)) T)"
      | "r \<in> set (drop i1 K)"
      unfolding assign_block_def set_append fst_conv snd_conv by blast
    then show ?thesis
    proof cases
      case 1
      then have "r \<in> set K" by (rule in_set_takeD)
      then show ?thesis by (rule rowK)
    next
      case 2
      then show ?thesis by (rule mid)
    next
      case 3
      then have "r \<in> set K" by (rule in_set_dropD)
      then show ?thesis by (rule rowK)
    qed
  qed
  show ?thesis
    unfolding shape5_def
  proof (intro conjI ballI)
    show "length (assign_block K (i0, i1) (j0, j1) T) = A" by (rule len)
  next
    fix row assume "row \<in> set (assign_block K (i0, i1) (j0, j1) T)"
    from rows [OF this] show "length row = B" by simp
  next
    fix row v assume "row \<in> set (assign_block K (i0, i1) (j0, j1) T)" "v \<in> set row"
    with rows show "vol_shape s v" by blast
  qed
qed

lemma sum_lessThan_mono: "k \<le> n \<Longrightarrow> (\<Sum>j<k. f j) \<le> (\<Sum>j<n. f j)" for f :: "nat \<Rightarrow> nat"
  by (rule sum_mono2) auto

lemma n_features_sum: "n_features ms ds = (\<Sum>i<length ms. ms ! i * ds ! i)"
  by (simp add: n_features_def sum_list_sum_nth atLeast0LessThan)

lemma foldl_counted:
  fixes f :: "error + 'a \<times> nat \<Rightarrow> nat \<Rightarrow> error + 'a \<times> nat" and d :: "nat \<Rightarrow> nat"
  assumes step: "\<And>t K c. t < n \<Longrightarrow> P K \<Longrightarrow> c + d t \<le> L \<Longrightarrow>
                   \<exists>K'. f (Inr (K, c)) t = Inr (K', c + d t) \<and> P K'"
  shows "k \<le> n \<Longrightarrow> P K \<Longrightarrow> c + (\<Sum>t<k. d t) \<le> L \<Longrightarrow>
         \<exists>K'. foldl f (Inr (K, c)) [0..<k] = Inr (K', c + (\<Sum>t<k. d t)) \<and> P K'"
proof (induction k)
  case 0
  then show ?case by simp
next
  case (Suc k)
  from Suc.prems have k: "k < n" and le: "c + (\<Sum>t<k. d t) + d k \<le> L"
    by (simp_all add: add.assoc)
  then have "c + (\<Sum>t<k. d t) \<le> L" by linarith
  with Suc.IH Suc.prems(2) k obtain K' where
    K': "foldl f (Inr (K, c)) [0..<k] = Inr (K', c + (\<Sum>t<k. d t))" and P: "P K'"
    by auto
  from step [OF k P le] obtain K'' where
    "f (Inr (K', c + (\<Sum>t<k. d t))) k = Inr (K'', c + (\<Sum>t<k. d t) + d k)" and "P K''"
    by blast
  then show ?case
    by (simp add: K' add.assoc)
qed

lemma foldl_offset:
  "foldl (\<lambda>(st, b) j. (g j b st, b + e j)) (st0, b0) [0..<n] =
     (foldl (\<lambda>st j. g j (b0 + (\<Sum>t<j. e t)) st) st0 [0..<n], b0 + (\<Sum>t<n. e t))"
  for e :: "nat \<Rightarrow> nat"
  by (induction n) (simp_all add: add.assoc)


lemma forward_k_ok:
  assumes K: "shape5 A B (csize C) K"
    and ks: "\<forall>T \<in> set (kernels C ! i ! j). shape5 (i1 - i0) (j1 - j0) (csize C) T"
    and b: "i0 \<le> i1" "i1 \<le> A" "j0 \<le> j1" "j1 \<le> B"
    and c: "c + length (kernels C ! i ! j) \<le> length w"
  shows "\<exists>K'. forward_k C w i j (i0, i1) (j0, j1) (Inr (K, c)) =
                 Inr (K', c + length (kernels C ! i ! j))
              \<and> shape5 A B (csize C) K'"
proof -
  let ?f = "\<lambda>st k.
              case st of Inl e \<Rightarrow> Inl e
              | Inr (kernel', weight_index) \<Rightarrow>
                  if weight_index < length w then
                    let T = map5 (\<lambda>x. x * w ! weight_index) (kernels C ! i ! j ! k)
                    in if shape5 (snd (i0, i1) - fst (i0, i1)) (snd (j0, j1) - fst (j0, j1)) (csize C) T
                       then Inr (assign_block kernel' (i0, i1) (j0, j1) T, weight_index + 1)
                       else Inl RuntimeError
                  else Inl IndexError"
  have step: "\<exists>K''. ?f (Inr (K', c')) t = Inr (K'', c' + 1) \<and> shape5 A B (csize C) K''"
    if "t < length (kernels C ! i ! j)" "shape5 A B (csize C) K'" "c' + 1 \<le> length w"
    for t K' c'
  proof -
    have T: "shape5 (i1 - i0) (j1 - j0) (csize C)
               (map5 (\<lambda>x. x * w ! c') (kernels C ! i ! j ! t))"
      using ks that(1) by (intro shape5_map5) simp
    have "shape5 A B (csize C)
            (assign_block K' (i0, i1) (j0, j1) (map5 (\<lambda>x. x * w ! c') (kernels C ! i ! j ! t)))"
      using that(2) T b by (rule assign_block_shape)
    then show ?thesis using that(3) T by simp
  qed
  have "c + (\<Sum>t<length (kernels C ! i ! j). 1) \<le> length w" using c by simp
  from foldl_counted [where f = ?f and d = "\<lambda>t. 1" and P = "shape5 A B (csize C)"
      and L = "length w", OF step le_refl K this]
  show ?thesis by (simp add: forward_k_def)
qed

lemma forward_jj_ok:
  assumes K: "shape5 A B (csize C) K"
    and ks: "\<forall>T \<in> set (kernels C ! i ! j). shape5 (i1 - i0) (dims_in C ! j) (csize C) T"
    and b: "i0 \<le> i1" "i1 \<le> A"
    and bj: "begin_j + multiplicites_in C ! j * dims_in C ! j \<le> B"
    and c: "c + multiplicites_in C ! j * length (kernels C ! i ! j) \<le> length w"
  shows "\<exists>K'. forward_jj C w i j begin_j (i0, i1) (Inr (K, c)) =
                 Inr (K', c + multiplicites_in C ! j * length (kernels C ! i ! j))
              \<and> shape5 A B (csize C) K'"
proof -
  let ?f = "\<lambda>st jj. forward_k C w i j (i0, i1)
                       (begin_j + jj * dims_in C ! j, begin_j + (jj + 1) * dims_in C ! j) st"
  have step: "\<exists>K''. ?f (Inr (K', c')) jj = Inr (K'', c' + length (kernels C ! i ! j))
                \<and> shape5 A B (csize C) K''"
    if "jj < multiplicites_in C ! j" "shape5 A B (csize C) K'"
      "c' + length (kernels C ! i ! j) \<le> length w" for jj K' c'
  proof -
    have "(jj + 1) * dims_in C ! j \<le> multiplicites_in C ! j * dims_in C ! j"
      using that(1) by (intro mult_le_mono1) simp
    then have le: "begin_j + (jj + 1) * dims_in C ! j \<le> B"
      using bj by linarith
    show ?thesis
      using that(2) ks b le that(3) by (intro forward_k_ok) simp_all
  qed
  have "c + (\<Sum>t<multiplicites_in C ! j. length (kernels C ! i ! j)) \<le> length w"
    using c by simp
  from foldl_counted [where f = ?f and d = "\<lambda>t. length (kernels C ! i ! j)"
      and P = "shape5 A B (csize C)" and L = "length w", OF step le_refl K this]
  show ?thesis by (simp add: forward_jj_def)
qed

lemma forward_ii_ok:
  assumes K: "shape5 A B (csize C) K"
    and ks: "\<forall>T \<in> set (kernels C ! i ! j). shape5 (dims_out C ! i) (dims_in C ! j) (csize C) T"
    and bi: "begin_i + multiplicites_out C ! i * dims_out C ! i \<le> A"
    and bj: "begin_j + multiplicites_in C ! j * dims_in C ! j \<le> B"
    and c: "c + multiplicites_out C ! i * (multiplicites_in C ! j * length (kernels C ! i ! j))
              \<le> length w"
  shows "\<exists>K'. forward_ii C w i j begin_i begin_j (Inr (K, c)) =
                 Inr (K', c + multiplicites_out C ! i
                                * (multiplicites_in C ! j * length (kernels C ! i ! j)))
              \<and> shape5 A B (csize C) K'"
proof -
  let ?f = "\<lambda>st ii. forward_jj C w i j begin_j
                       (begin_i + ii * dims_out C ! i, begin_i + (ii + 1) * dims_out C ! i) st"
  let ?d = "multiplicites_in C ! j * length (kernels C ! i ! j)"
  have step: "\<exists>K''. ?f (Inr (K', c')) ii = Inr (K'', c' + ?d) \<and> shape5 A B (csize C) K''"
    if "ii < multiplicites_out C ! i" "shape5 A B (csize C) K'" "c' + ?d \<le> length w"
    for ii K' c'
  proof -
    have "(ii + 1) * dims_out C ! i \<le> multiplicites_out C ! i * dims_out C ! i"
      using that(1) by (intro mult_le_mono1) simp
    then have le: "begin_i + (ii + 1) * dims_out C ! i \<le> A"
      using bi by linarith
    show ?thesis
      using that(2) ks le bj that(3) by (intro forward_jj_ok) simp_all
  qed
  have "c + (\<Sum>t<multiplicites_out C ! i. ?d) \<le> length w"
    using c by simp
  from foldl_counted [where f = ?f and d = "\<lambda>t. ?d"
      and P = "shape5 A B (csize C)" and L = "length w", OF step le_refl K this]
  show ?thesis by (simp add: forward_ii_def)
qed


lemma forward_j_ok:
  assumes K: "shape5 A B (csize C) K"
    and ks: "\<forall>j<length (multiplicites_in C). \<forall>T \<in> set (kernels C ! i ! j).
               shape5 (dims_out C ! i) (dims_in C ! j) (csize C) T"
    and bi: "begin_i + multiplicites_out C ! i * dims_out C ! i \<le> A"
    and B: "(\<Sum>j<length (multiplicites_in C). multiplicites_in C ! j * dims_in C ! j) \<le> B"
    and c: "c + (\<Sum>j<length (multiplicites_in C).
                   multiplicites_out C ! i * (multiplicites_in C ! j * length (kernels C ! i ! j)))
              \<le> length w"
  shows "\<exists>K'. forward_j C w i begin_i (Inr (K, c)) =
                 Inr (K', c + (\<Sum>j<length (multiplicites_in C).
                     multiplicites_out C ! i * (multiplicites_in C ! j * length (kernels C ! i ! j))))
              \<and> shape5 A B (csize C) K'"
proof -
  let ?e = "\<lambda>j. multiplicites_in C ! j * dims_in C ! j"
  let ?f = "\<lambda>st j. forward_ii C w i j begin_i (0 + (\<Sum>t<j. ?e t)) st"
  let ?d = "\<lambda>j. multiplicites_out C ! i * (multiplicites_in C ! j * length (kernels C ! i ! j))"
  have step: "\<exists>K''. ?f (Inr (K', c')) j = Inr (K'', c' + ?d j) \<and> shape5 A B (csize C) K''"
    if "j < length (multiplicites_in C)" "shape5 A B (csize C) K'" "c' + ?d j \<le> length w"
    for j K' c'
  proof -
    have "(\<Sum>t<Suc j. ?e t) \<le> B"
      using sum_lessThan_mono [of "Suc j" "length (multiplicites_in C)" ?e] that(1) B
      by (meson Suc_leI le_trans)
    then have le: "(0 + (\<Sum>t<j. ?e t)) + multiplicites_in C ! j * dims_in C ! j \<le> B" by simp
    show ?thesis
      using that(2) ks that(1) bi le that(3) by (intro forward_ii_ok) simp_all
  qed
  have eq: "forward_j C w i begin_i (Inr (K, c)) =
            foldl ?f (Inr (K, c)) [0..<length (multiplicites_in C)]"
    unfolding forward_j_def foldl_offset fst_conv ..
  from foldl_counted [where f = ?f and d = ?d and P = "shape5 A B (csize C)" and L = "length w",
      OF step le_refl K c]
  show ?thesis by (simp only: eq)
qed

lemma forward_i_ok:
  assumes K: "shape5 A B (csize C) K"
    and ks: "\<forall>i<length (multiplicites_out C). \<forall>j<length (multiplicites_in C).
               \<forall>T \<in> set (kernels C ! i ! j).
                 shape5 (dims_out C ! i) (dims_in C ! j) (csize C) T"
    and A: "(\<Sum>i<length (multiplicites_out C). multiplicites_out C ! i * dims_out C ! i) \<le> A"
    and B: "(\<Sum>j<length (multiplicites_in C). multiplicites_in C ! j * dims_in C ! j) \<le> B"
    and c: "c + (\<Sum>i<length (multiplicites_out C). \<Sum>j<length (multiplicites_in C).
                   multiplicites_out C ! i * (multiplicites_in C ! j * length (kernels C ! i ! j)))
              \<le> length w"
  shows "\<exists>K' c'. forward_i C w (Inr (K, c)) = Inr (K', c') \<and> shape5 A B (csize C) K'"
proof -
  let ?e = "\<lambda>i. multiplicites_out C ! i * dims_out C ! i"
  let ?f = "\<lambda>st i. forward_j C w i (0 + (\<Sum>t<i. ?e t)) st"
  let ?d = "\<lambda>i. \<Sum>j<length (multiplicites_in C).
              multiplicites_out C ! i * (multiplicites_in C ! j * length (kernels C ! i ! j))"
  have step: "\<exists>K''. ?f (Inr (K', c')) i = Inr (K'', c' + ?d i) \<and> shape5 A B (csize C) K''"
    if "i < length (multiplicites_out C)" "shape5 A B (csize C) K'" "c' + ?d i \<le> length w"
    for i K' c'
  proof -
    have "(\<Sum>t<Suc i. ?e t) \<le> A"
      using sum_lessThan_mono [of "Suc i" "length (multiplicites_out C)" ?e] that(1) A
      by (meson Suc_leI le_trans)
    then have le: "(0 + (\<Sum>t<i. ?e t)) + multiplicites_out C ! i * dims_out C ! i \<le> A" by simp
    show ?thesis
      using that(2) ks that(1) le B that(3) by (intro forward_j_ok) simp_all
  qed
  have eq: "forward_i C w (Inr (K, c)) =
            foldl ?f (Inr (K, c)) [0..<length (multiplicites_out C)]"
    unfolding forward_i_def foldl_offset fst_conv ..
  from foldl_counted [where f = ?f and d = ?d and P = "shape5 A B (csize C)" and L = "length w",
      OF step le_refl K c]
  show ?thesis unfolding eq by blast
qed

lemma forward_ok:
  assumes ks: "\<forall>i<length (multiplicites_out C). \<forall>j<length (multiplicites_in C).
                 \<forall>T \<in> set (kernels C ! i ! j).
                   shape5 (dims_out C ! i) (dims_in C ! j) (csize C) T"
    and n: "nweights C = (\<Sum>i<length (multiplicites_out C). \<Sum>j<length (multiplicites_in C).
              multiplicites_out C ! i * multiplicites_in C ! j * length (kernels C ! i ! j))"
    and len: "length w = nweights C"
  shows "\<exists>K. forward mem C w = Inr K
          \<and> shape5 (n_features (multiplicites_out C) (dims_out C))
                    (n_features (multiplicites_in C) (dims_in C)) (csize C) K"
proof -
  let ?A = "n_features (multiplicites_out C) (dims_out C)"
  let ?B = "n_features (multiplicites_in C) (dims_in C)"
  have K: "shape5 ?A ?B (csize C) (alloc5 mem ?A ?B (csize C))" by (rule shape5_alloc5)
  have A: "(\<Sum>i<length (multiplicites_out C). multiplicites_out C ! i * dims_out C ! i) \<le> ?A"
    by (simp add: n_features_sum)
  have B: "(\<Sum>j<length (multiplicites_in C). multiplicites_in C ! j * dims_in C ! j) \<le> ?B"
    by (simp add: n_features_sum)
  have c: "0 + (\<Sum>i<length (multiplicites_out C). \<Sum>j<length (multiplicites_in C).
                   multiplicites_out C ! i * (multiplicites_in C ! j * length (kernels C ! i ! j)))
              \<le> length w"
    by (simp add: len n mult.assoc)
  from forward_i_ok [OF K ks A B c] obtain K' c' where
    "forward_i C w (Inr (alloc5 mem ?A ?B (csize C), 0)) = Inr (K', c')"
    and "shape5 ?A ?B (csize C) K'" by blast
  then show ?thesis
    using len by (simp add: forward_def Let_def)
qed

lemma n_features_map:
  "n_features (map fst Rs) (map (\<lambda>(m, R). SO3_dim R) Rs) = (\<Sum>(m, R)\<leftarrow>Rs. m * SO3_dim R)"
proof -
  have "map (\<lambda>i. map fst Rs ! i * map (\<lambda>(m, R). SO3_dim R) Rs ! i) [0..<length Rs] =
        map (\<lambda>(m, R). m * SO3_dim R) Rs"
    by (rule nth_equalityI) (auto simp: case_prod_beta)
  then show ?thesis by (simp add: n_features_def)
qed

lemma generate_basis_shape:
  assumes "\<forall>T \<in> set (cube size' R_out R_in M). shape5 (SO3_dim R_out) (SO3_dim R_in) size' T"
    and "T \<in> set (generate_basis size' M central_base cube so3' R_out R_in m_out m_in)"
  shows "shape5 (SO3_dim R_out) (SO3_dim R_in) size' T"
proof -
  from assms(2) obtain b where T: "T = normalized (SO3_dim R_out) m_in
      (length ((if central_base \<and> size' mod 2 = 1
                then map (center_element size' (SO3_dim R_out) (SO3_dim R_in)) (so3' R_out R_in)
                else []) @ cube size' R_out R_in M)) b"
    and b: "b \<in> set ((if central_base \<and> size' mod 2 = 1
                then map (center_element size' (SO3_dim R_out) (SO3_dim R_in)) (so3' R_out R_in)
                else []) @ cube size' R_out R_in M)"
    unfolding generate_basis_map Let_def by auto
  have "shape5 (SO3_dim R_out) (SO3_dim R_in) size' b"
    using b assms(1) by (auto simp: shape5_center_element split: if_splits)
  then show ?thesis
    unfolding T normalized_def by (rule shape5_map5)
qed

lemma init_kernels_shaped:
  assumes bs: "basis_shaped size' M cube Rs_out Rs_in"
    and C: "C = SE3KernelCombination_init size' Rs_out Rs_in M central_base cube so3'"
  shows "\<forall>i<length (multiplicites_out C). \<forall>j<length (multiplicites_in C).
           \<forall>T \<in> set (kernels C ! i ! j).
             shape5 (dims_out C ! i) (dims_in C ! j) (csize C) T"
proof (intro allI impI ballI)
  fix i j T
  let ?fo = "filter (\<lambda>(m, R). 1 \<le> m) Rs_out" and ?fi = "filter (\<lambda>(m, R). 1 \<le> m) Rs_in"
  assume i: "i < length (multiplicites_out C)" and j: "j < length (multiplicites_in C)"
    and T: "T \<in> set (kernels C ! i ! j)"
  have i': "i < length ?fo" and j': "j < length ?fi"
    using i j by (simp_all add: C SE3KernelCombination_init_def Let_def)
  obtain mo Ro where o: "?fo ! i = (mo, Ro)" by (cases "?fo ! i")
  obtain mi Ri where n: "?fi ! j = (mi, Ri)" by (cases "?fi ! j")
  have "(mo, Ro) \<in> set ?fo" "(mi, Ri) \<in> set ?fi"
    using nth_mem [OF i'] nth_mem [OF j'] o n by simp_all
  then have mem: "(mo, Ro) \<in> set Rs_out" "(mi, Ri) \<in> set Rs_in" by simp_all
  have cube: "\<forall>T \<in> set (cube size' Ro Ri M). shape5 (SO3_dim Ro) (SO3_dim Ri) size' T"
    using bs mem unfolding basis_shaped_def by blast
  have k: "kernels C ! i ! j = generate_basis size' M central_base cube so3' Ro Ri mo mi"
    using i' j' o n by (simp add: C SE3KernelCombination_init_def Let_def)
  have d: "dims_out C ! i = SO3_dim Ro" "dims_in C ! j = SO3_dim Ri" "csize C = size'"
    using i' j' o n by (simp_all add: C SE3KernelCombination_init_def Let_def)
  show "shape5 (dims_out C ! i) (dims_in C ! j) (csize C) T"
    unfolding d using cube T [unfolded k] by (rule generate_basis_shape)
qed

text \<open>
  C9. For a combination as the constructor builds it from generators of well-shaped
  elements, and every weight vector of the stored length, \<^verbatim>\<open>forward\<close> returns a kernel: no
  read of the weight is past its end and no assignment fails. The kernel has the shape
  \<open>(n_out, n_in, size, size, size)\<close>, where \<open>n_out\<close> and \<open>n_in\<close> are the sums of multiplicity
  times dimension over the entries of \<^verbatim>\<open>Rs_out\<close> and \<^verbatim>\<open>Rs_in\<close> that pass the filter
  \<open>m \<ge> 1\<close>. The weight does not occur in the shape.
\<close>

theorem forward_shape_of_init:
  assumes "basis_shaped size' M cube Rs_out Rs_in"
    and "C = SE3KernelCombination_init size' Rs_out Rs_in M central_base cube so3'"
    and "length weight = nweights C"
  shows "\<exists>K. forward mem C weight = Inr K
          \<and> shape5 (\<Sum>(m, R)\<leftarrow>filter (\<lambda>(m, R). 1 \<le> m) Rs_out. m * SO3_dim R)
                    (\<Sum>(m, R)\<leftarrow>filter (\<lambda>(m, R). 1 \<le> m) Rs_in. m * SO3_dim R) size' K"
proof -
  have A: "n_features (multiplicites_out C) (dims_out C) =
           (\<Sum>(m, R)\<leftarrow>filter (\<lambda>(m, R). 1 \<le> m) Rs_out. m * SO3_dim R)"
    and B: "n_features (multiplicites_in C) (dims_in C) =
           (\<Sum>(m, R)\<leftarrow>filter (\<lambda>(m, R). 1 \<le> m) Rs_in. m * SO3_dim R)"
    and s: "csize C = size'"
    by (simp_all add: assms(2) SE3KernelCombination_init_def Let_def n_features_map)
  have n: "nweights C = (\<Sum>i<length (multiplicites_out C). \<Sum>j<length (multiplicites_in C).
              multiplicites_out C ! i * multiplicites_in C ! j * length (kernels C ! i ! j))"
    by (simp add: assms(2) SE3KernelCombination_init_def Let_def count_weights_sum)
  show ?thesis
    using forward_ok [OF init_kernels_shaped [OF assms(1,2)] n assms(3), of mem]
    by (simp only: A B s)
qed

text \<open>The combination \<open>C_two\<close> is the one the constructor builds from the generators
  \<open>cube_one\<close> and \<open>so3_one\<close>.\<close>

lemma generate_basis_one:
  "generate_basis 1 15 True cube_one so3_one 0 0 1 2 = [[[[[[1 / 2]]]]], [[[[[1 / 2]]]]]]"
  by (simp add: generate_basis_map Let_def cube_one_def so3_one_def center_element_def
      center_vol_def SO3_dim_def normalized_def map5_def linalg_norm_one sqrt_half_half)

lemma init_C_two:
  "SE3KernelCombination_init 1 [(1, 0)] [(2, 0)] 15 True cube_one so3_one = C_two"
  by (simp add: SE3KernelCombination_init_def Let_def generate_basis_one C_two_def
      count_weights_def SO3_dim_def del: One_nat_def)

lemma basis_shaped_one: "basis_shaped 1 15 cube_one [(1, 0)] [(2, 0)]"
  by (simp add: basis_shaped_def cube_one_def shape5_def vol_shape_def SO3_dim_def)

theorem forward_shape_of_init_witness:
  "basis_shaped 1 15 cube_one [(1, 0)] [(2, 0)]
   \<and> C_two = SE3KernelCombination_init 1 [(1, 0)] [(2, 0)] 15 True cube_one so3_one
   \<and> length [1, 2, 3, 4 :: real] = nweights C_two
   \<and> (\<exists>K. forward (\<lambda>r c x y z. 0) C_two [1, 2, 3, 4] = Inr K \<and> shape5 1 2 1 K)"
proof -
  have len: "length [1, 2, 3, 4 :: real] = nweights C_two" by (simp add: C_two_def)
  have "\<exists>K. forward (\<lambda>r c x y z. 0) C_two [1, 2, 3, 4] = Inr K \<and> shape5 1 2 1 K"
    using forward_shape_of_init [OF basis_shaped_one init_C_two [symmetric] len, of "\<lambda>r c x y z. 0"]
    by (simp add: SO3_dim_def numeral_2_eq_2)
  then show ?thesis
    by (intro conjI basis_shaped_one init_C_two [symmetric] len)
qed

section \<open>The stored weight count\<close>

lemma sum_nth_sum_list: "(\<Sum>i<length xs. f (xs ! i)) = sum_list (map f xs)" for f :: "'a \<Rightarrow> nat"
  by (simp add: sum_list_sum_nth atLeast0LessThan)

lemma count_weights_map:
  "count_weights (map fst Ro) (map fst Ri)
     (map (\<lambda>(mo, ro). map (\<lambda>(mi, ri). B ro ri mo mi) Ri) Ro) =
   (\<Sum>(mo, ro)\<leftarrow>Ro. \<Sum>(mi, ri)\<leftarrow>Ri. mo * mi * length (B ro ri mo mi))"
proof -
  let ?f = "\<lambda>p q. fst p * fst q * length (B (snd p) (snd q) (fst p) (fst q))"
  have inner: "(\<Sum>j<length Ri. ?f p (Ri ! j)) = sum_list (map (?f p) Ri)" for p
    by (rule sum_nth_sum_list)
  have "count_weights (map fst Ro) (map fst Ri)
          (map (\<lambda>(mo, ro). map (\<lambda>(mi, ri). B ro ri mo mi) Ri) Ro) =
        (\<Sum>i<length Ro. \<Sum>j<length Ri. ?f (Ro ! i) (Ri ! j))"
    unfolding count_weights_sum by (simp add: case_prod_beta)
  also have "\<dots> = (\<Sum>i<length Ro. sum_list (map (?f (Ro ! i)) Ri))"
    by (simp only: inner)
  also have "\<dots> = sum_list (map (\<lambda>p. sum_list (map (?f p) Ri)) Ro)"
    by (rule sum_nth_sum_list)
  also have "\<dots> = (\<Sum>(mo, ro)\<leftarrow>Ro. \<Sum>(mi, ri)\<leftarrow>Ri. mo * mi * length (B ro ri mo mi))"
    by (simp add: split_def)
  finally show ?thesis .
qed

text \<open>
  C4. The weight count that the constructor stores is the sum, over the pairs of an entry
  \<open>(m_out, R_out)\<close> of \<^verbatim>\<open>Rs_out\<close> and an entry \<open>(m_in, R_in)\<close> of \<^verbatim>\<open>Rs_in\<close> that pass the filter
  \<open>m \<ge> 1\<close>, of \<open>m_out * m_in\<close> times the number of basis elements that \<^verbatim>\<open>generate_basis\<close>
  returns for the pair; and \<^verbatim>\<open>forward\<close> on a weight vector of any other length than the
  stored count returns the assertion failure, with no kernel.
\<close>

theorem nweights_total_and_length_check:
  "nweights (SE3KernelCombination_init size' Rs_out Rs_in M central_base cube so3') =
     (\<Sum>(m_out, R_out)\<leftarrow>filter (\<lambda>(m, R). 1 \<le> m) Rs_out.
        \<Sum>(m_in, R_in)\<leftarrow>filter (\<lambda>(m, R). 1 \<le> m) Rs_in.
          m_out * m_in *
          length (generate_basis size' M central_base cube so3' R_out R_in m_out m_in))
   \<and> (length weight \<noteq> nweights C' \<longrightarrow> forward mem C' weight = Inl AssertionError)"
proof
  show "nweights (SE3KernelCombination_init size' Rs_out Rs_in M central_base cube so3') =
     (\<Sum>(m_out, R_out)\<leftarrow>filter (\<lambda>(m, R). 1 \<le> m) Rs_out.
        \<Sum>(m_in, R_in)\<leftarrow>filter (\<lambda>(m, R). 1 \<le> m) Rs_in.
          m_out * m_in *
          length (generate_basis size' M central_base cube so3' R_out R_in m_out m_in))"
    unfolding SE3KernelCombination_init_def Let_def combination.simps
    by (rule count_weights_map)
  show "length weight \<noteq> nweights C' \<longrightarrow> forward mem C' weight = Inl AssertionError"
    by (simp add: forward_def)
qed

text \<open>
  The constructor on an output list with an entry of multiplicity 0, which the filter drops,
  and the pair of \<open>C_two\<close>, which has two basis elements: \<open>1 * 2 * 2 = 4\<close> weights.
\<close>

theorem nweights_total_and_length_check_witness:
  "nweights (SE3KernelCombination_init 1 [(1, 0), (0, 1)] [(2, 0)] 15 True cube_one so3_one) = 4
   \<and> length [1, 2, 3 :: real] \<noteq> nweights C_two
   \<and> forward (\<lambda>r c x y z. 0) C_two [1, 2, 3] = Inl AssertionError"
  using nweights_total_and_length_check [of 1 "[(1, 0), (0, 1)]" "[(2, 0)]" 15 True cube_one so3_one
      "[1, 2, 3]" C_two "\<lambda>r c x y z. 0"]
  by (simp add: generate_basis_one C_two_def del: One_nat_def)

end
